theory Spec2Isabelle
  imports Complex_Main "HOL-Library.Word" "HOL-Library.Code_Target_Numeral"
begin

section \<open>Bytes\<close>

text \<open>
  A Go \<^verbatim>\<open>string\<close> and a \<^verbatim>\<open>[]byte\<close> are sequences of 8-bit bytes; both are modelled by
  \<^typ>\<open>string\<close> (a list of 8-bit \<^typ>\<open>char\<close>).
\<close>

definition byte :: "char \<Rightarrow> nat" where
  "byte c = of_char c"

definition isDigit :: "char \<Rightarrow> bool" where
  "isDigit c = (48 \<le> byte c \<and> byte c \<le> 57)"

definition digitVal :: "char \<Rightarrow> nat" where
  "digitVal c = byte c - 48"

definition lowerASCII :: "char \<Rightarrow> char" where
  "lowerASCII c = (if 65 \<le> byte c \<and> byte c \<le> 90 then char_of (byte c + 32) else c)"

definition upperASCII :: "char \<Rightarrow> char" where
  "upperASCII c = (if 97 \<le> byte c \<and> byte c \<le> 122 then char_of (byte c - 32) else c)"

section \<open>The number parsers of package strconv\<close>

datatype num_err = ErrSyntax | ErrRange

definition maxUint64 :: nat where
  "maxUint64 = 2 ^ 64 - 1"

text \<open>
  \<^verbatim>\<open>strconv.ParseUint(s, 10, 64)\<close>: the digit loop stops at the first byte that is not a
  decimal digit (syntax error, value 0) or at the first step that leaves 64 bits (range
  error, value \<open>2\<^sup>6\<^sup>4 - 1\<close>), whichever comes first in the string.
\<close>

fun ParseUint_loop :: "nat \<Rightarrow> string \<Rightarrow> nat \<times> num_err option" where
  "ParseUint_loop n [] = (n, None)"
| "ParseUint_loop n (c # cs) =
     (if \<not> isDigit c then (0, Some ErrSyntax)
      else if maxUint64 div 10 + 1 \<le> n then (maxUint64, Some ErrRange)
      else if maxUint64 < n * 10 + digitVal c then (maxUint64, Some ErrRange)
      else ParseUint_loop (n * 10 + digitVal c) cs)"

definition ParseUint :: "string \<Rightarrow> nat \<times> num_err option" where
  "ParseUint s = (if s = [] then (0, Some ErrSyntax) else ParseUint_loop 0 s)"

text \<open>
  \<^verbatim>\<open>strconv.ParseInt(s, 10, 64)\<close>: an optional sign, then \<^verbatim>\<open>ParseUint\<close>; a magnitude
  outside the signed 64-bit range is a range error whose value is the nearest bound.
\<close>

definition ParseInt :: "string \<Rightarrow> int \<times> num_err option" where
  "ParseInt s =
     (case s of
        [] \<Rightarrow> (0, Some ErrSyntax)
      | c # cs \<Rightarrow>
          (let neg = (c = CHR ''-'');
               s' = (if c = CHR ''+'' \<or> c = CHR ''-'' then cs else s)
           in case ParseUint s' of
                (un, Some ErrSyntax) \<Rightarrow> (0, Some ErrSyntax)
              | (un, _) \<Rightarrow>
                  if \<not> neg \<and> 2 ^ 63 \<le> un then (2 ^ 63 - 1, Some ErrRange)
                  else if neg \<and> 2 ^ 63 < un then (- (2 ^ 63), Some ErrRange)
                  else (if neg then - int un else int un, None)))"

text \<open>
  \<^verbatim>\<open>strconv.Atoi\<close> on a 64-bit platform: its fast path for short strings and its slow
  path through \<^verbatim>\<open>ParseInt(s, 10, 0)\<close> return the same pair, so one definition serves.
\<close>

definition Atoi :: "string \<Rightarrow> int \<times> num_err option" where
  "Atoi s = ParseInt s"

subsection \<open>Binary floating point\<close>

text \<open>
  A \<^verbatim>\<open>float64\<close> is modelled by the value it denotes: a finite value is the rational number
  itself (always one that the format represents), and the remaining bit patterns are
  named. \<open>Finite 0\<close> is the positive zero.
\<close>

datatype float64 = Finite rat | NegZero | PosInf | NegInf | NaN

text \<open>The Go comparison \<^verbatim>\<open>v == k\<close> of a \<^verbatim>\<open>float64\<close> with a non-zero constant.\<close>

fun feq :: "float64 \<Rightarrow> rat \<Rightarrow> bool" where
  "feq (Finite r) k = (r = k)"
| "feq _ k = False"

fun bitLen :: "nat \<Rightarrow> nat" where
  "bitLen n = (if n = 0 then 0 else Suc (bitLen (n div 2)))"

declare bitLen.simps [simp del]

text \<open>\<open>fracGePow2 num den k\<close> decides \<open>2\<^sup>k \<le> num / den\<close> in integer arithmetic.\<close>

definition fracGePow2 :: "nat \<Rightarrow> nat \<Rightarrow> int \<Rightarrow> bool" where
  "fracGePow2 num den k =
     (if 0 \<le> k then den * 2 ^ nat k \<le> num else den \<le> num * 2 ^ nat (- k))"

definition pow2 :: "int \<Rightarrow> rat" where
  "pow2 u = (if 0 \<le> u then 2 ^ nat u else 1 / 2 ^ nat (- u))"

text \<open>
  IEEE 754 round-to-nearest-even of the positive fraction \<open>num / den\<close> to binary64:
  \<open>u\<close> is the exponent of the unit in the last place (at least \<open>-1074\<close>, where the
  subnormal numbers live), \<open>m\<close> the rounded significand. \<open>None\<close> is overflow.
\<close>

definition roundFloat64 :: "nat \<Rightarrow> nat \<Rightarrow> rat option" where
  "roundFloat64 num den =
     (let k = int (bitLen num) - int (bitLen den);
          fl = (if fracGePow2 num den k then k else k - 1);
          u = max (fl - 52) (- 1074);
          n' = (if 0 \<le> u then num else num * 2 ^ nat (- u));
          d' = (if 0 \<le> u then den * 2 ^ nat u else den);
          q = n' div d';
          r = n' mod d';
          m = (if 2 * r < d' then q
               else if d' < 2 * r then q + 1
               else if even q then q else q + 1)
      in if 971 < u \<or> (u = 971 \<and> m = 2 ^ 53) then None
         else Some (of_nat m * pow2 u))"

text \<open>The \<^verbatim>\<open>float64\<close> nearest to \<open>mant \<sqdot> 10\<^sup>e\<close>, with the sign \<open>neg\<close>.\<close>

definition decimalToFloat64 :: "bool \<Rightarrow> nat \<Rightarrow> int \<Rightarrow> float64 \<times> num_err option" where
  "decimalToFloat64 neg mant e =
     (if mant = 0 then (if neg then NegZero else Finite 0, None)
      else
        case (if 0 \<le> e then roundFloat64 (mant * 10 ^ nat e) 1
              else roundFloat64 mant (10 ^ nat (- e))) of
          None \<Rightarrow> (if neg then NegInf else PosInf, Some ErrRange)
        | Some v \<Rightarrow>
            (if v = 0 then (if neg then NegZero else Finite 0)
             else Finite (if neg then - v else v), None))"

text \<open>The same for \<open>mant \<sqdot> 2\<^sup>e\<close>, the value of a hexadecimal mantissa and its exponent.\<close>

definition binaryToFloat64 :: "bool \<Rightarrow> nat \<Rightarrow> int \<Rightarrow> float64 \<times> num_err option" where
  "binaryToFloat64 neg mant e =
     (if mant = 0 then (if neg then NegZero else Finite 0, None)
      else
        case (if 0 \<le> e then roundFloat64 (mant * 2 ^ nat e) 1
              else roundFloat64 mant (2 ^ nat (- e))) of
          None \<Rightarrow> (if neg then NegInf else PosInf, Some ErrRange)
        | Some v \<Rightarrow>
            (if v = 0 then (if neg then NegZero else Finite 0)
             else Finite (if neg then - v else v), None))"

text \<open>The letters among the hexadecimal digits, in either case, and their values.\<close>

definition isHexLetter :: "char \<Rightarrow> bool" where
  "isHexLetter c = (97 \<le> byte (lowerASCII c) \<and> byte (lowerASCII c) \<le> 102)"

definition hexVal :: "char \<Rightarrow> nat" where
  "hexVal c = byte (lowerASCII c) - 87"

text \<open>
  The mantissa loop of \<^verbatim>\<open>readFloat\<close> in the base 10 or 16: \<open>v\<close> is the value of the digits
  read, \<open>k\<close> the number of digits read after the point, \<open>dot\<close>, \<open>dig\<close> and \<open>us\<close> say
  whether a point, a digit and an underscore have been seen. The loop stops at a second
  point and at any other byte. (Go keeps the first 19 decimal or 16 hexadecimal digits
  and a flag for the rest, and rounds correctly from them; the model keeps all digits.)
\<close>

fun scanMant ::
  "nat \<Rightarrow> nat \<Rightarrow> nat \<Rightarrow> bool \<Rightarrow> bool \<Rightarrow> bool \<Rightarrow> string
     \<Rightarrow> (nat \<times> nat \<times> bool \<times> bool) \<times> string" where
  "scanMant base v k dot dig us [] = ((v, k, dig, us), [])"
| "scanMant base v k dot dig us (c # cs) =
     (if c = CHR ''_'' then scanMant base v k dot dig True cs
      else if c = CHR ''.'' then
        (if dot then ((v, k, dig, us), c # cs) else scanMant base v k True dig us cs)
      else if isDigit c then
        scanMant base (base * v + digitVal c) (if dot then Suc k else k) dot True us cs
      else if base = 16 \<and> isHexLetter c then
        scanMant base (base * v + hexVal c) (if dot then Suc k else k) dot True us cs
      else ((v, k, dig, us), c # cs))"

text \<open>
  The exponent digits of \<^verbatim>\<open>readFloat\<close>: the accumulator stops growing once it has
  reached 10000 (the remaining digits are read and ignored); underscores are passed over
  and noted in \<open>us\<close>.
\<close>

fun scanExp :: "nat \<Rightarrow> bool \<Rightarrow> string \<Rightarrow> nat \<times> bool \<times> string" where
  "scanExp e us [] = (e, us, [])"
| "scanExp e us (c # cs) =
     (if c = CHR ''_'' then scanExp e True cs
      else if isDigit c then scanExp (if e < 10000 then e * 10 + digitVal c else e) us cs
      else (e, us, c # cs))"

text \<open>
  The exponent part, introduced by \<^verbatim>\<open>e\<close> after a decimal mantissa and by \<^verbatim>\<open>p\<close> after a
  hexadecimal one: \<open>Some (x, us, rest)\<close> with the signed exponent \<open>x\<close> (0 when a decimal
  mantissa has no exponent part), \<open>None\<close> when the exponent letter is not followed by an
  optional sign and a digit, or when a hexadecimal mantissa has no exponent part.
\<close>

definition readExp :: "bool \<Rightarrow> string \<Rightarrow> (int \<times> bool \<times> string) option" where
  "readExp hex s =
     (if s \<noteq> [] \<and> lowerASCII (hd s) = (if hex then CHR ''p'' else CHR ''e'') then
        (let cs = tl s;
             esign = (if cs \<noteq> [] \<and> hd cs = CHR ''-'' then - 1 else (1::int));
             ds = (if cs \<noteq> [] \<and> (hd cs = CHR ''+'' \<or> hd cs = CHR ''-'') then tl cs else cs)
         in if ds = [] \<or> \<not> isDigit (hd ds) then None
            else (case scanExp 0 False ds of (e, us, rest) \<Rightarrow> Some (esign * int e, us, rest)))
      else if hex then None
      else Some (0, False, s))"

text \<open>
  \<^verbatim>\<open>underscoreOK\<close>: an underscore is accepted only between two digits, or between a base
  prefix (\<^verbatim>\<open>0b\<close>, \<^verbatim>\<open>0o\<close>, \<^verbatim>\<open>0x\<close>) and a digit. \<open>seen\<close> is the kind of the byte before.
\<close>

datatype seen = AtStart | ADigit | AnUnderscore | AnotherByte

fun underscoreLoop :: "bool \<Rightarrow> seen \<Rightarrow> string \<Rightarrow> bool" where
  "underscoreLoop hex i [] = (i \<noteq> AnUnderscore)"
| "underscoreLoop hex i (c # cs) =
     (if isDigit c \<or> hex \<and> isHexLetter c then underscoreLoop hex ADigit cs
      else if c = CHR ''_'' then (if i \<noteq> ADigit then False else underscoreLoop hex AnUnderscore cs)
      else if i = AnUnderscore then False
      else underscoreLoop hex AnotherByte cs)"

definition underscoreOK :: "string \<Rightarrow> bool" where
  "underscoreOK s =
     (let s1 = (if s \<noteq> [] \<and> (hd s = CHR ''-'' \<or> hd s = CHR ''+'') then tl s else s);
          pre = (2 \<le> length s1 \<and> hd s1 = CHR ''0''
                 \<and> (lowerASCII (hd (tl s1)) = CHR ''b'' \<or> lowerASCII (hd (tl s1)) = CHR ''o''
                      \<or> lowerASCII (hd (tl s1)) = CHR ''x''))
      in underscoreLoop (pre \<and> lowerASCII (hd (tl s1)) = CHR ''x'')
           (if pre then ADigit else AtStart) (if pre then drop 2 s1 else s1))"

text \<open>
  The words \<^verbatim>\<open>ParseFloat\<close> accepts besides numbers, in any letter case: a signed or
  unsigned \<^verbatim>\<open>inf\<close> or \<^verbatim>\<open>infinity\<close>, and an unsigned \<^verbatim>\<open>nan\<close>.
\<close>

definition special :: "string \<Rightarrow> float64 option" where
  "special s =
     (let neg = (s \<noteq> [] \<and> hd s = CHR ''-'');
          signed = (s \<noteq> [] \<and> (hd s = CHR ''+'' \<or> hd s = CHR ''-''));
          w = map lowerASCII (if signed then tl s else s)
      in if w = ''inf'' \<or> w = ''infinity'' then Some (if neg then NegInf else PosInf)
         else if map lowerASCII s = ''nan'' then Some NaN
         else None)"

text \<open>
  \<^verbatim>\<open>strconv.ParseFloat(s, 64)\<close>: an optional sign; a decimal mantissa, or a hexadecimal
  one after \<^verbatim>\<open>0x\<close> followed by at least one more byte; at most one point and at least one
  digit; an exponent part, optional after a decimal mantissa and required after a
  hexadecimal one; underscores only where \<^verbatim>\<open>underscoreOK\<close> accepts them; nothing after
  that. The result is the correctly rounded \<^verbatim>\<open>float64\<close>, or an infinity with a range
  error.
\<close>

definition ParseFloat :: "string \<Rightarrow> float64 \<times> num_err option" where
  "ParseFloat s =
     (case special s of
        Some v \<Rightarrow> (v, None)
      | None \<Rightarrow>
          (let neg = (s \<noteq> [] \<and> hd s = CHR ''-'');
               s1 = (if s \<noteq> [] \<and> (hd s = CHR ''+'' \<or> hd s = CHR ''-'') then tl s else s);
               hex = (2 < length s1 \<and> hd s1 = CHR ''0'' \<and> lowerASCII (hd (tl s1)) = CHR ''x'')
           in case scanMant (if hex then 16 else 10) 0 0 False False False
                     (if hex then drop 2 s1 else s1) of
                ((v, k, dig, us1), r) \<Rightarrow>
                  if \<not> dig then (Finite 0, Some ErrSyntax)
                  else
                    (case readExp hex r of
                       None \<Rightarrow> (Finite 0, Some ErrSyntax)
                     | Some (x, us2, rest) \<Rightarrow>
                         if (us1 \<or> us2) \<and> \<not> underscoreOK (take (length s - length rest) s)
                         then (Finite 0, Some ErrSyntax)
                         else if rest \<noteq> [] then (Finite 0, Some ErrSyntax)
                         else if hex then binaryToFloat64 neg v (x - 4 * int k)
                         else decimalToFloat64 neg v (x - int k))))"

section \<open>The sentinel-aware scalar parsers\<close>

text \<open>
  \<^verbatim>\<open>atoiP\<close>: the empty token, a token \<^verbatim>\<open>ParseInt\<close> rejects and the values 99, 999 and
  9999 give \<^verbatim>\<open>nil\<close>; any other value is narrowed by the conversion \<^verbatim>\<open>int32(v)\<close>, which
  keeps the low 32 bits.
\<close>

definition atoiP :: "string \<Rightarrow> 32 word option" where
  "atoiP s =
     (if s = [] then None
      else case ParseInt s of
        (v, err) \<Rightarrow>
          if err \<noteq> None \<or> v = 99 \<or> v = 999 \<or> v = 9999 then None
          else Some (word_of_int v))"

definition atofP :: "string \<Rightarrow> float64 option" where
  "atofP s =
     (if s = [] then None
      else case ParseFloat s of
        (v, err) \<Rightarrow>
          if err \<noteq> None \<or> feq v 99 \<or> feq v 999 \<or> feq v 9999 then None
          else Some v)"

section \<open>The string functions of package strings\<close>

definition HasPrefix :: "string \<Rightarrow> string \<Rightarrow> bool" where
  "HasPrefix s p = (take (length p) s = p)"

definition TrimPrefix :: "string \<Rightarrow> string \<Rightarrow> string" where
  "TrimPrefix s p = (if HasPrefix s p then drop (length p) s else s)"

text \<open>
  \<^verbatim>\<open>TrimSpace\<close> and \<^verbatim>\<open>Fields\<close> cut at the runes for which \<^verbatim>\<open>unicode.IsSpace\<close> holds: six
  ASCII bytes, and U+0085, U+00A0, U+1680, U+2000 to U+200A, U+2028, U+2029, U+202F,
  U+205F and U+3000 in their UTF-8 encodings of two and three bytes. The lead byte of such
  an encoding is never a continuation byte, so Go's decoder (forwards in \<^verbatim>\<open>Fields\<close> and
  \<^verbatim>\<open>TrimLeftFunc\<close>, backwards in \<^verbatim>\<open>TrimRightFunc\<close>) finds a white-space rune
  exactly where these bytes occur.
\<close>

definition isAsciiSpace :: "char \<Rightarrow> bool" where
  "isAsciiSpace c = (byte c = 9 \<or> byte c = 10 \<or> byte c = 11 \<or> byte c = 12 \<or> byte c = 13 \<or> byte c = 32)"

definition isSpace2 :: "char \<Rightarrow> char \<Rightarrow> bool" where
  "isSpace2 a b = (byte a = 194 \<and> (byte b = 133 \<or> byte b = 160))"

definition isSpace3 :: "char \<Rightarrow> char \<Rightarrow> char \<Rightarrow> bool" where
  "isSpace3 a b c =
     (byte a = 225 \<and> byte b = 154 \<and> byte c = 128 \<or>
      byte a = 226 \<and> byte b = 128 \<and>
        (128 \<le> byte c \<and> byte c \<le> 138 \<or> byte c = 168 \<or> byte c = 169 \<or> byte c = 175) \<or>
      byte a = 226 \<and> byte b = 129 \<and> byte c = 159 \<or>
      byte a = 227 \<and> byte b = 128 \<and> byte c = 128)"

text \<open>The width in bytes of the white-space rune at the head of the string; 0 if none.\<close>

fun spaceLen :: "string \<Rightarrow> nat" where
  "spaceLen [] = 0"
| "spaceLen [a] = (if isAsciiSpace a then 1 else 0)"
| "spaceLen [a, b] = (if isAsciiSpace a then 1 else if isSpace2 a b then 2 else 0)"
| "spaceLen (a # b # c # s) =
     (if isAsciiSpace a then 1 else if isSpace2 a b then 2 else if isSpace3 a b c then 3 else 0)"

text \<open>The same at the end of the string, which is given reversed.\<close>

fun spaceLenRev :: "string \<Rightarrow> nat" where
  "spaceLenRev [] = 0"
| "spaceLenRev [c] = (if isAsciiSpace c then 1 else 0)"
| "spaceLenRev [c, b] = (if isAsciiSpace c then 1 else if isSpace2 b c then 2 else 0)"
| "spaceLenRev (c # b # a # s) =
     (if isAsciiSpace c then 1 else if isSpace2 b c then 2 else if isSpace3 a b c then 3 else 0)"

lemma spaceLen_le: "spaceLen s \<le> length s"
  by (induction s rule: spaceLen.induct) auto

lemma spaceLenRev_le: "spaceLenRev s \<le> length s"
  by (induction s rule: spaceLenRev.induct) auto

function trimLeft :: "string \<Rightarrow> string" where
  "trimLeft s = (if spaceLen s = 0 then s else trimLeft (drop (spaceLen s) s))"
  by pat_completeness auto
termination
proof (relation "measure length")
  fix s :: string
  assume "spaceLen s \<noteq> 0"
  moreover have "spaceLen s \<le> length s" by (rule spaceLen_le)
  ultimately show "(drop (spaceLen s) s, s) \<in> measure length" by simp
qed simp

function trimRightRev :: "string \<Rightarrow> string" where
  "trimRightRev s = (if spaceLenRev s = 0 then s else trimRightRev (drop (spaceLenRev s) s))"
  by pat_completeness auto
termination
proof (relation "measure length")
  fix s :: string
  assume "spaceLenRev s \<noteq> 0"
  moreover have "spaceLenRev s \<le> length s" by (rule spaceLenRev_le)
  ultimately show "(drop (spaceLenRev s) s, s) \<in> measure length" by simp
qed simp

declare trimLeft.simps [simp del] trimRightRev.simps [simp del]

definition TrimSpace :: "string \<Rightarrow> string" where
  "TrimSpace s = rev (trimRightRev (rev (trimLeft s)))"

text \<open>
  \<^verbatim>\<open>strings.Fields\<close>: the maximal runs of bytes between white-space runes; \<open>cur\<close> is the
  field being read, reversed.
\<close>

function fieldsFrom :: "string \<Rightarrow> string \<Rightarrow> string list" where
  "fieldsFrom cur s =
     (if s = [] then (if cur = [] then [] else [rev cur])
      else if spaceLen s = 0 then fieldsFrom (hd s # cur) (tl s)
      else (if cur = [] then [] else [rev cur]) @ fieldsFrom [] (drop (spaceLen s) s))"
  by pat_completeness auto
termination
proof (relation "measure (\<lambda>(cur, s). length s)")
  fix cur s :: string
  assume "s \<noteq> []" "spaceLen s \<noteq> 0"
  moreover have "spaceLen s \<le> length s" by (rule spaceLen_le)
  ultimately show "(([], drop (spaceLen s) s), (cur, s)) \<in> measure (\<lambda>(cur, s). length s)"
    by simp
qed simp_all

declare fieldsFrom.simps [simp del]

definition Fields :: "string \<Rightarrow> string list" where
  "Fields s = fieldsFrom [] s"

text \<open>
  Two corners of the Go library are parameters of the model, gathered in a record that
  every function depending on them takes as its first argument. \<open>unicodeUpper\<close> is
  \<^verbatim>\<open>strings.ToUpper\<close> on a string with a byte above 127, where it applies the Unicode case
  tables rune by rune. \<open>farDate\<close> is \<^verbatim>\<open>time.Date(...).Unix()\<close> on a year, month, day,
  hour and minute of which one lies outside the 32-bit range, where the 64-bit
  intermediate results of the library may wrap around.
\<close>

record golib =
  unicodeUpper :: "string \<Rightarrow> string"
  farDate :: "int \<Rightarrow> int \<Rightarrow> int \<Rightarrow> int \<Rightarrow> int \<Rightarrow> 64 word"

text \<open>\<^verbatim>\<open>strings.ToUpper\<close> maps the letters a to z of a string of ASCII bytes to A to Z.\<close>

definition ToUpper :: "golib \<Rightarrow> string \<Rightarrow> string" where
  "ToUpper lib s = (if list_all (\<lambda>c. byte c < 128) s then map upperASCII s else unicodeUpper lib s)"

section \<open>Reading lines: bufio.Reader over bytes.Reader\<close>

datatype io_err = EOF | ErrNoProgress | ErrBufferFull

text \<open>
  \<^verbatim>\<open>bytes.Reader.Read(p)\<close> with \<open>n\<close> the length of \<open>p\<close>: at the end of the data
  it returns no bytes and \<^verbatim>\<open>io.EOF\<close>, otherwise it copies what fits and returns no error.
\<close>

definition bytesRead :: "nat \<Rightarrow> string \<Rightarrow> string \<times> string \<times> io_err option" where
  "bytesRead n src = (if src = [] then ([], [], Some EOF) else (take n src, drop n src, None))"

text \<open>
  The reader \<^verbatim>\<open>bufio.NewReader(bytes.NewReader(body))\<close>: \<open>rbuf\<close> is the buffered data not
  yet consumed (\<^verbatim>\<open>b.buf[b.r:b.w]\<close>), \<open>rsrc\<close> what the underlying reader has not delivered
  yet, \<open>rerr\<close> the pending error \<^verbatim>\<open>b.err\<close>. The buffer holds 4096 bytes.
\<close>

record bufReader =
  rbuf :: string
  rsrc :: string
  rerr :: "io_err option"

definition bufSize :: nat where
  "bufSize = 4096"

definition NewReader :: "string \<Rightarrow> bufReader" where
  "NewReader body = \<lparr>rbuf = [], rsrc = body, rerr = None\<rparr>"

text \<open>
  \<^verbatim>\<open>fill\<close> reads into the free part of the buffer, at most 100 times while the underlying
  reader returns neither data nor an error; then it records \<^verbatim>\<open>io.ErrNoProgress\<close>.
\<close>

fun fill_tries :: "nat \<Rightarrow> bufReader \<Rightarrow> bufReader" where
  "fill_tries 0 b = b\<lparr>rerr := Some ErrNoProgress\<rparr>"
| "fill_tries (Suc i) b =
     (case bytesRead (bufSize - length (rbuf b)) (rsrc b) of
        (got, rest, e) \<Rightarrow>
          (case e of
             Some x \<Rightarrow> b\<lparr>rbuf := rbuf b @ got, rsrc := rest, rerr := Some x\<rparr>
           | None \<Rightarrow>
               if got \<noteq> [] then b\<lparr>rbuf := rbuf b @ got, rsrc := rest\<rparr>
               else fill_tries i (b\<lparr>rbuf := rbuf b @ got, rsrc := rest\<rparr>)))"

definition fill :: "bufReader \<Rightarrow> bufReader" where
  "fill b = fill_tries 100 b"

abbreviation LF :: char where
  "LF \<equiv> CHR 0x0A"

abbreviation CR :: char where
  "CR \<equiv> CHR 0x0D"

lemma fill_tries_progress:
  "rerr b = None \<Longrightarrow>
     rerr (fill_tries n b) \<noteq> None \<or> length (rbuf b) < length (rbuf (fill_tries n b))"
  by (induction n arbitrary: b) (auto simp: bytesRead_def split: prod.splits option.splits if_splits)

text \<open>
  \<^verbatim>\<open>ReadSlice('\n')\<close>: the bytes up to and including the first line feed in the
  buffer; failing that the pending error with what is buffered; failing that
  \<^verbatim>\<open>ErrBufferFull\<close> with the whole buffer when it is full; otherwise fill and look again.
  The result is the slice, the error and the reader after the call.
\<close>

function ReadSlice :: "bufReader \<Rightarrow> string \<times> io_err option \<times> bufReader" where
  "ReadSlice b =
     (if LF \<in> set (rbuf b) then
        (takeWhile (\<lambda>c. c \<noteq> LF) (rbuf b) @ [LF], None,
         b\<lparr>rbuf := tl (dropWhile (\<lambda>c. c \<noteq> LF) (rbuf b))\<rparr>)
      else if rerr b \<noteq> None then (rbuf b, rerr b, b\<lparr>rbuf := [], rerr := None\<rparr>)
      else if bufSize \<le> length (rbuf b) then (rbuf b, Some ErrBufferFull, b\<lparr>rbuf := []\<rparr>)
      else ReadSlice (fill b))"
  by pat_completeness auto
termination
proof (relation "measure (\<lambda>b. if rerr b = None then Suc (bufSize - length (rbuf b)) else 0)")
  fix b :: bufReader
  assume a: "\<not> rerr b \<noteq> None" "\<not> bufSize \<le> length (rbuf b)"
  from a(1) have "rerr b = None" by simp
  then have "rerr (fill b) \<noteq> None \<or> length (rbuf b) < length (rbuf (fill b))"
    unfolding fill_def by (rule fill_tries_progress)
  with a show "(fill b, b) \<in> measure (\<lambda>b. if rerr b = None then Suc (bufSize - length (rbuf b)) else 0)"
    by auto
qed simp

declare ReadSlice.simps [simp del]

text \<open>
  \<^verbatim>\<open>ReadLine\<close>: a full buffer without line feed is returned as a line prefix (a final
  carriage return is put back for the next call); otherwise the end-of-line bytes are
  dropped. The result is the line, \<^verbatim>\<open>isPrefix\<close>, the error and the reader after the call.
\<close>

definition ReadLine :: "bufReader \<Rightarrow> string \<times> bool \<times> io_err option \<times> bufReader" where
  "ReadLine b =
     (case ReadSlice b of
        (line, err, b') \<Rightarrow>
          if err = Some ErrBufferFull then
            (if line \<noteq> [] \<and> last line = CR
             then (butlast line, True, None, b'\<lparr>rbuf := CR # rbuf b'\<rparr>)
             else (line, True, None, b'))
          else if line = [] then ([], False, err, b')
          else if last line = LF then
            (if 1 < length line \<and> last (butlast line) = CR
             then (butlast (butlast line), False, None, b')
             else (butlast line, False, None, b'))
          else (line, False, None, b'))"

subsection \<open>Facts about the reader\<close>

lemma fill_eof: "rsrc b = [] \<Longrightarrow> fill b = b\<lparr>rerr := Some EOF\<rparr>"
  by (simp add: fill_def numeral_eq_Suc bytesRead_def)

lemma fill_data:
  "rsrc b \<noteq> [] \<Longrightarrow> length (rbuf b) < bufSize \<Longrightarrow>
     fill b = b\<lparr>rbuf := rbuf b @ take (bufSize - length (rbuf b)) (rsrc b),
               rsrc := drop (bufSize - length (rbuf b)) (rsrc b)\<rparr>"
  by (cases "rsrc b") (simp_all add: fill_def numeral_eq_Suc bytesRead_def)

text \<open>The bytes a reader has not handed out yet.\<close>

definition unread :: "bufReader \<Rightarrow> nat" where
  "unread b = length (rbuf b) + length (rsrc b)"

text \<open>The only error a reader over an in-memory buffer ever has pending is the end of the data.\<close>

definition eofOnly :: "bufReader \<Rightarrow> bool" where
  "eofOnly b = (rerr b = None \<or> rerr b = Some EOF)"

lemma fill_unread: "length (rbuf b) < bufSize \<Longrightarrow> unread (fill b) = unread b"
  by (cases "rsrc b = []") (simp_all add: fill_eof fill_data unread_def)

lemma fill_eofOnly: "length (rbuf b) < bufSize \<Longrightarrow> rerr b = None \<Longrightarrow> eofOnly (fill b)"
  by (cases "rsrc b = []") (simp_all add: fill_eof fill_data eofOnly_def)

lemma takeWhile_tl_dropWhile_length:
  assumes "x \<in> set xs"
  shows "Suc (length (takeWhile (\<lambda>c. c \<noteq> x) xs) + (length (dropWhile (\<lambda>c. c \<noteq> x) xs) - Suc 0))
           = length xs"
proof -
  from assms have "dropWhile (\<lambda>c. c \<noteq> x) xs \<noteq> []"
    by (auto simp: dropWhile_eq_Nil_conv)
  moreover have "length (takeWhile (\<lambda>c. c \<noteq> x) xs) + length (dropWhile (\<lambda>c. c \<noteq> x) xs) = length xs"
    by (metis length_append takeWhile_dropWhile_id)
  ultimately show ?thesis
    by (cases "dropWhile (\<lambda>c. c \<noteq> x) xs") auto
qed

lemma ReadSlice_unread:
  "ReadSlice b = (line, err, b') \<Longrightarrow> length line + unread b' = unread b"
proof (induction b arbitrary: line err b' rule: ReadSlice.induct)
  case (1 b)
  show ?case
  proof (cases "LF \<in> set (rbuf b)")
    case True
    with "1.prems" takeWhile_tl_dropWhile_length [OF True] show ?thesis
      by (auto simp: ReadSlice.simps [of b] unread_def)
  next
    case nolf: False
    show ?thesis
    proof (cases "rerr b \<noteq> None \<or> bufSize \<le> length (rbuf b)")
      case True
      with nolf "1.prems" show ?thesis
        by (auto simp: ReadSlice.simps [of b] unread_def split: if_splits)
    next
      case False
      with nolf "1.prems" have "ReadSlice (fill b) = (line, err, b')"
        by (simp add: ReadSlice.simps [of b])
      with "1.IH" nolf False have "length line + unread b' = unread (fill b)"
        by simp
      with False show ?thesis
        by (simp add: fill_unread)
    qed
  qed
qed

lemma ReadSlice_result:
  "ReadSlice b = (line, err, b') \<Longrightarrow>
     (err = None \<longrightarrow> line \<noteq> []) \<and>
     (err = Some ErrBufferFull \<longrightarrow>
        rbuf b' = [] \<and> (bufSize \<le> length line \<or> rerr b = Some ErrBufferFull \<and> rerr b' = None))"
proof (induction b arbitrary: line err b' rule: ReadSlice.induct)
  case (1 b)
  show ?case
  proof (cases "LF \<in> set (rbuf b) \<or> rerr b \<noteq> None \<or> bufSize \<le> length (rbuf b)")
    case True
    with "1.prems" show ?thesis
      by (auto simp: ReadSlice.simps [of b] split: if_splits)
  next
    case False
    with "1.prems" have "ReadSlice (fill b) = (line, err, b')"
      by (simp add: ReadSlice.simps [of b])
    moreover from False have "rerr (fill b) \<noteq> Some ErrBufferFull"
      using fill_eofOnly [of b] by (auto simp: eofOnly_def)
    ultimately show ?thesis
      using "1.IH" [of line err b'] False by auto
  qed
qed

lemma ReadSlice_eofOnly:
  "eofOnly b \<Longrightarrow> ReadSlice b = (line, err, b') \<Longrightarrow>
     (err = None \<or> err = Some EOF \<or> err = Some ErrBufferFull) \<and> eofOnly b'"
proof (induction b arbitrary: line err b' rule: ReadSlice.induct)
  case (1 b)
  show ?case
  proof (cases "LF \<in> set (rbuf b) \<or> rerr b \<noteq> None \<or> bufSize \<le> length (rbuf b)")
    case True
    with "1.prems" show ?thesis
      by (auto simp: ReadSlice.simps [of b] eofOnly_def split: if_splits)
  next
    case False
    with "1.prems" have "ReadSlice (fill b) = (line, err, b')"
      by (simp add: ReadSlice.simps [of b])
    moreover from False have "eofOnly (fill b)"
      by (simp add: fill_eofOnly)
    ultimately show ?thesis
      using "1.IH" False by simp
  qed
qed

text \<open>The measure that decreases with every line \<^verbatim>\<open>ReadLine\<close> returns.\<close>

definition pending :: "bufReader \<Rightarrow> nat" where
  "pending b = 2 * unread b + (if rerr b = None then 0 else 1)"

lemma ReadLine_pending:
  assumes a: "ReadLine b = (line, isPrefix, None, b')"
  shows "pending b' < pending b"
proof -
  obtain l e c where rs: "ReadSlice b = (l, e, c)"
    by (cases "ReadSlice b") auto
  from ReadSlice_unread [OF rs] have u: "length l + unread c = unread b" .
  from ReadSlice_result [OF rs]
  have r1: "e = None \<longrightarrow> l \<noteq> []"
    and r2: "e = Some ErrBufferFull \<longrightarrow>
      rbuf c = [] \<and> (bufSize \<le> length l \<or> rerr b = Some ErrBufferFull \<and> rerr c = None)"
    by simp_all
  show ?thesis
  proof (cases "e = Some ErrBufferFull")
    case full: True
    with r2 have c: "rbuf c = []" by simp
    show ?thesis
    proof (cases "bufSize \<le> length l")
      case True
      then have "4096 \<le> length l" by (simp add: bufSize_def)
      with a rs full u c show ?thesis
        by (auto simp: ReadLine_def unread_def pending_def split: if_splits)
    next
      case False
      with r2 full have "rerr b = Some ErrBufferFull" "rerr c = None" by simp_all
      with a rs full u c show ?thesis
        by (cases l) (auto simp: ReadLine_def unread_def pending_def split: if_splits)
    qed
  next
    case False
    with a rs r1 have "l \<noteq> []" "b' = c"
      by (auto simp: ReadLine_def split: if_splits)
    with u show ?thesis by (cases l) (auto simp: pending_def)
  qed
qed

lemma ReadLine_eofOnly:
  "eofOnly b \<Longrightarrow> ReadLine b = (line, isPrefix, err, b') \<Longrightarrow>
     (err = None \<or> err = Some EOF) \<and> eofOnly b'"
proof -
  assume e: "eofOnly b" and a: "ReadLine b = (line, isPrefix, err, b')"
  obtain l e c where rs: "ReadSlice b = (l, e, c)"
    by (cases "ReadSlice b") auto
  from ReadSlice_eofOnly [OF e rs] a rs show ?thesis
    by (auto simp: ReadLine_def eofOnly_def split: if_splits)
qed

section \<open>The records\<close>

text \<open>
  \<^verbatim>\<open>MetRow\<close>: a nil pointer is \<open>None\<close>. \<^verbatim>\<open>Time\<close> is an \<^verbatim>\<open>int64\<close>, \<^verbatim>\<open>WDIRDeg\<close> points to an
  \<^verbatim>\<open>int32\<close>, both read as two's complement by \<^const>\<open>sint\<close>.
\<close>

record MetRow =
  StationID :: string
  Time :: "64 word"
  WDIRDeg :: "32 word option"
  WSPDmS :: "float64 option"
  GUSTmS :: "float64 option"
  PREShPa :: "float64 option"
  ATMPC :: "float64 option"
  WTMPC :: "float64 option"
  DEWPC :: "float64 option"

section \<open>Calendar time\<close>

text \<open>
  \<^verbatim>\<open>norm\<close> of package time: \<open>nhi * base + nlo = hi * base + lo\<close> with
  \<open>0 \<le> nlo < base\<close>. Both divisions have non-negative operands, where Go's truncating
  division and \<open>div\<close> agree.
\<close>

definition norm :: "int \<Rightarrow> int \<Rightarrow> int \<Rightarrow> int \<times> int" where
  "norm hi lo base =
     (let (hi1, lo1) =
            (if lo < 0 then
               (let n = (- lo - 1) div base + 1 in (hi - n, lo + n * base))
             else (hi, lo))
      in if base \<le> lo1 then (let n = lo1 div base in (hi1 + n, lo1 - n * base))
         else (hi1, lo1))"

definition isLeap :: "int \<Rightarrow> bool" where
  "isLeap year = (year mod 4 = 0 \<and> (year mod 100 \<noteq> 0 \<or> year mod 400 = 0))"

definition daysBefore :: "int list" where
  "daysBefore = [0, 31, 59, 90, 120, 151, 181, 212, 243, 273, 304, 334, 365]"

text \<open>Days from 1 January 1970 to 1 January of \<open>year\<close> in the proleptic Gregorian calendar.\<close>

definition daysSinceEpoch :: "int \<Rightarrow> int" where
  "daysSinceEpoch year =
     (let leaps = (\<lambda>y. y div 4 - y div 100 + y div 400)
      in 365 * (year - 1970) + leaps (year - 1) - leaps 1969)"

text \<open>
  \<^verbatim>\<open>time.Date(year, month, day, hour, min, sec, 0, time.UTC).Unix()\<close> in the integers: the
  fields may lie outside their usual ranges and are normalised, the month into the year
  and the clock fields into the day.
\<close>

definition Date_Unix :: "int \<Rightarrow> int \<Rightarrow> int \<Rightarrow> int \<Rightarrow> int \<Rightarrow> int \<Rightarrow> int" where
  "Date_Unix year month day hour minute sec =
     (let (year1, m) = norm year (month - 1) 12;
          (min1, sec1) = norm minute sec 60;
          (hour1, min2) = norm hour min1 60;
          (day1, hour2) = norm day hour1 24;
          d = daysSinceEpoch year1 + daysBefore ! nat m
              + (if isLeap year1 \<and> 2 \<le> m then 1 else 0) + (day1 - 1)
      in d * 86400 + hour2 * 3600 + min2 * 60 + sec1)"

text \<open>
  The \<^verbatim>\<open>int64\<close> that \<^verbatim>\<open>time.Date(year, month, day, hour, min, 0, 0, time.UTC).Unix()\<close>
  returns. Go computes with 64-bit integers throughout. While the five fields lie in the
  32-bit range, the years, days and seconds it computes with stay within 64 bits and the
  result is that of the computation in the integers. Outside that range intermediate
  results may wrap (\<^verbatim>\<open>int(month) - 1\<close> already does at the least \<^verbatim>\<open>int64\<close>), and the
  result is the library parameter \<open>farDate\<close>.
\<close>

definition int32Range :: "int \<Rightarrow> bool" where
  "int32Range v = (- (2 ^ 31) \<le> v \<and> v < 2 ^ 31)"

definition unixOfDate :: "golib \<Rightarrow> int \<Rightarrow> int \<Rightarrow> int \<Rightarrow> int \<Rightarrow> int \<Rightarrow> 64 word" where
  "unixOfDate lib year month day hour minute =
     (if int32Range year \<and> int32Range month \<and> int32Range day \<and> int32Range hour
         \<and> int32Range minute
      then word_of_int (Date_Unix year month day hour minute 0)
      else farDate lib year month day hour minute)"

section \<open>The parser\<close>

text \<open>
  The read loop of \<^verbatim>\<open>parseNdbcStdMet\<close>. \<open>header\<close> is \<open>None\<close> while the Go slice is nil.
  \<^verbatim>\<open>isPrefix\<close> is ignored, as in the source: a line of more than 4096 bytes arrives in
  pieces, each handled as a line.
\<close>

function scanLoop ::
  "bufReader \<Rightarrow> string list option \<Rightarrow> string list list
     \<Rightarrow> io_err + (string list option \<times> string list list)" where
  "scanLoop r header data =
     (case ReadLine r of
        (line, isPrefix, err, r') \<Rightarrow>
          (case err of
             Some e \<Rightarrow> if e = EOF then Inr (header, data) else Inl e
           | None \<Rightarrow>
               if HasPrefix line ''#'' then
                 (let trim = TrimSpace (TrimPrefix line ''#'')
                  in scanLoop r'
                       (if HasPrefix trim ''YY'' \<or> HasPrefix trim ''YYYY''
                        then Some (Fields trim) else header)
                       data)
               else if TrimSpace line = [] then scanLoop r' header data
               else
                 (let cols = Fields line
                  in scanLoop r' header (if 5 \<le> length cols then data @ [cols] else data))))"
  by pat_completeness auto
termination
proof (relation "measure (\<lambda>(r, header, data). pending r)")
qed (auto dest: ReadLine_pending [OF sym])

declare scanLoop.simps [simp del]

definition defaultHeader :: "string list" where
  "defaultHeader =
     [''YYYY'', ''MM'', ''DD'', ''hh'', ''mm'',
      ''WDIR'', ''WSPD'', ''GST'', ''WVHT'', ''DPD'',
      ''APD'', ''MWD'', ''PRES'', ''PTDY'', ''ATMP'',
      ''WTMP'', ''DEWP'', ''VIS'', ''TIDE'']"

text \<open>
  The loop \<^verbatim>\<open>for i, h := range header { idx[strings.ToUpper(h)] = i }\<close>: a later
  column overwrites an earlier one with the same upper-cased name.
\<close>

fun buildIdx ::
  "golib \<Rightarrow> nat \<Rightarrow> string list \<Rightarrow> (string \<rightharpoonup> nat) \<Rightarrow> (string \<rightharpoonup> nat)" where
  "buildIdx lib i [] idx = idx"
| "buildIdx lib i (h # hs) idx = buildIdx lib (Suc i) hs (idx(ToUpper lib h \<mapsto> i))"

definition get :: "golib \<Rightarrow> string list \<Rightarrow> (string \<rightharpoonup> nat) \<Rightarrow> string \<Rightarrow> string" where
  "get lib cols idx key =
     (case idx (ToUpper lib key) of
        Some i \<Rightarrow> if i < length cols then cols ! i else []
      | None \<Rightarrow> [])"

text \<open>The body of the loop over the retained rows.\<close>

definition rowToMet ::
  "golib \<Rightarrow> string \<Rightarrow> (string \<rightharpoonup> nat) \<Rightarrow> string list \<Rightarrow> MetRow" where
  "rowToMet lib station idx cols =
     (let yy0 = get lib cols idx ''YYYY'';
          yy = (if yy0 = [] then get lib cols idx ''YY'' else yy0);
          mm = get lib cols idx ''MM'';
          dd = get lib cols idx ''DD'';
          hh0 = get lib cols idx ''HH'';
          hh = (if hh0 = [] then get lib cols idx ''hh'' else hh0);
          mn = get lib cols idx ''mm'';
          year0 = fst (Atoi yy);
          year = (if length yy = 2 then year0 + 2000 else year0);
          month = fst (Atoi mm);
          day = fst (Atoi dd);
          hour = fst (Atoi hh);
          minute = fst (Atoi mn)
      in \<lparr>StationID = ToUpper lib station,
          Time = unixOfDate lib year month day hour minute,
          WDIRDeg = atoiP (get lib cols idx ''WDIR''),
          WSPDmS = atofP (get lib cols idx ''WSPD''),
          GUSTmS = atofP (get lib cols idx ''GST''),
          PREShPa = atofP (get lib cols idx ''PRES''),
          ATMPC = atofP (get lib cols idx ''ATMP''),
          WTMPC = atofP (get lib cols idx ''WTMP''),
          DEWPC = atofP (get lib cols idx ''DEWP'')\<rparr>)"

definition parseNdbcStdMet ::
  "golib \<Rightarrow> string \<Rightarrow> string \<Rightarrow> int \<Rightarrow> io_err + MetRow list" where
  "parseNdbcStdMet lib station body maxRows =
     (case scanLoop (NewReader body) None [] of
        Inl e \<Rightarrow> Inl e
      | Inr (header, data) \<Rightarrow>
          (let header' = (case header of None \<Rightarrow> defaultHeader | Some h \<Rightarrow> h);
               idx = buildIdx lib 0 header' Map.empty;
               data' = (if 0 < maxRows \<and> maxRows < int (length data)
                        then take (nat maxRows) data else data)
           in Inr (map (rowToMet lib station idx) data')))"

section \<open>Fetching a station\<close>

text \<open>
  What the HTTP client can do with a request for a URL: the request cannot be built, the
  transport fails (connection, timeout, cancelled context), or a response arrives with a
  status code and a body that \<^verbatim>\<open>io.ReadAll\<close> reads (\<open>Some\<close>) or fails to read (\<open>None\<close>).
\<close>

datatype http_outcome = BadRequest | TransportError | Response nat "string option"

datatype fetch_err =
  ErrNewRequest | ErrFetch string | ErrHTTPStatus string nat | ErrReadBody | ErrParse io_err

definition ndbcBase :: string where
  "ndbcBase = ''https://www.ndbc.noaa.gov/data/realtime2''"

definition stationURL :: "golib \<Rightarrow> string \<Rightarrow> string" where
  "stationURL lib station = ndbcBase @ ''/'' @ ToUpper lib station @ ''.txt''"

definition fetchStation ::
  "golib \<Rightarrow> (string \<Rightarrow> http_outcome) \<Rightarrow> string \<Rightarrow> fetch_err + MetRow list" where
  "fetchStation lib httpGet station =
     (case httpGet (stationURL lib station) of
        BadRequest \<Rightarrow> Inl ErrNewRequest
      | TransportError \<Rightarrow> Inl (ErrFetch station)
      | Response code body \<Rightarrow>
          if code \<noteq> 200 then Inl (ErrHTTPStatus station code)
          else
            (case body of
               None \<Rightarrow> Inl ErrReadBody
             | Some b \<Rightarrow>
                 (case parseNdbcStdMet lib station b 48 of
                    Inl e \<Rightarrow> Inl (ErrParse e)
                  | Inr rows \<Rightarrow> Inr rows)))"

section \<open>The atomic writer\<close>

text \<open>
  The file system is a map from paths to file contents; \<open>'c\<close> is the type of contents.
  The Parquet encoder is the parameter \<open>enc\<close>. The step of \<^verbatim>\<open>writeParquet\<close> at which the
  operating system or the encoder fails, if any, is given by a \<open>wfault\<close>; the function
  returns at the first failure. A failed system call leaves the file system as it found
  it. \<^verbatim>\<open>os.Create\<close> creates or truncates the temporary file, so after a failed write or
  close the call \<^verbatim>\<open>os.Remove(tmp)\<close> (whose own error the source discards) finds it and
  removes it; a failed \<^verbatim>\<open>os.Rename\<close> is returned as it is.
\<close>

datatype wfault =
  NoFault | CreateFails | WriteFails | WriterCloseFails | FileCloseFails | RenameFails

datatype werr = ErrCreate | ErrWrite | ErrWriterClose | ErrFileClose | ErrRename

definition writeParquet ::
  "(MetRow list \<Rightarrow> 'c) \<Rightarrow> wfault \<Rightarrow> (string \<rightharpoonup> 'c) \<Rightarrow> string \<Rightarrow> MetRow list
     \<Rightarrow> werr option \<times> (string \<rightharpoonup> 'c)" where
  "writeParquet enc fault fs path rows =
     (let tmp = path @ ''.tmp'' in
      if fault = CreateFails then (Some ErrCreate, fs)
      else if fault = WriteFails then (Some ErrWrite, fs(tmp := None))
      else if fault = WriterCloseFails then (Some ErrWriterClose, fs(tmp := None))
      else if fault = FileCloseFails then (Some ErrFileClose, fs(tmp := None))
      else if fault = RenameFails then (Some ErrRename, fs(tmp \<mapsto> enc rows))
      else (None, fs(tmp := None, path \<mapsto> enc rows)))"

section \<open>One ingest cycle\<close>

datatype log_entry =
  LogErrMkdir string
| LogWarnFetch string fetch_err
| LogInfoNoRows string
| LogErrWrite string werr
| LogWrote string nat
| LogWarnNoFiles string
| LogWarnRead string
| LogErrIpcWrite string
| LogSent string nat

text \<open>
  What \<^verbatim>\<open>runOnce\<close> depends on besides its arguments: the library parameters, the HTTP
  client, whether \<^verbatim>\<open>os.MkdirAll\<close> fails, \<^verbatim>\<open>filepath.Join\<close>, the encoder, and the fault
  (if any) of the write to each path.
\<close>

record 'c ingest_env =
  iLib :: golib
  iHttpGet :: "string \<Rightarrow> http_outcome"
  iMkdirFails :: bool
  iJoinPath :: "string \<Rightarrow> string \<Rightarrow> string"
  iEncode :: "MetRow list \<Rightarrow> 'c"
  iWriteFault :: "string \<Rightarrow> wfault"

text \<open>The body of the loop over the stations: the file system and the log, before and after.\<close>

definition runStation ::
  "'c ingest_env \<Rightarrow> string \<Rightarrow> (string \<rightharpoonup> 'c) \<times> log_entry list \<Rightarrow> string
     \<Rightarrow> (string \<rightharpoonup> 'c) \<times> log_entry list" where
  "runStation env dataDir st s0 =
     (case st of
        (fs, lg) \<Rightarrow>
          (let s = TrimSpace s0 in
           if s = [] then (fs, lg)
           else
             (case fetchStation (iLib env) (iHttpGet env) s of
                Inl e \<Rightarrow> (fs, lg @ [LogWarnFetch s e])
              | Inr rows \<Rightarrow>
                  if length rows = 0 then (fs, lg @ [LogInfoNoRows s])
                  else
                    (let out = iJoinPath env dataDir (ToUpper (iLib env) s @ ''_latest.parquet'')
                     in case writeParquet (iEncode env) (iWriteFault env out) fs out rows of
                          (Some e, fs') \<Rightarrow> (fs', lg @ [LogErrWrite s e])
                        | (None, fs') \<Rightarrow> (fs', lg @ [LogWrote out (length rows)])))))"

definition runOnce ::
  "'c ingest_env \<Rightarrow> string list \<Rightarrow> string \<Rightarrow> (string \<rightharpoonup> 'c) \<Rightarrow> (string \<rightharpoonup> 'c) \<times> log_entry list" where
  "runOnce env stations dataDir fs =
     (if iMkdirFails env then (fs, [LogErrMkdir dataDir])
      else foldl (runStation env dataDir) (fs, []) stations)"

section \<open>Reading a file back\<close>

text \<open>
  The Parquet decoder is a parameter: \<open>dec c\<close> says what the library finds in the
  contents \<open>c\<close>. Contents that are no Parquet file (wrong magic bytes, empty, truncated)
  make \<^verbatim>\<open>parquet.NewGenericReader\<close> panic: it has no error result. Otherwise there are the
  rows that can be read, and whether reading then ends in a failure instead of the end of
  the file.
\<close>

datatype decoded = NotParquet | Rows "MetRow list" bool

datatype 'a outcome = Panics | Returns 'a

datatype rerror = ErrOpen | ErrDecode

text \<open>
  The reader: the rows not yet read, whether reading ends in a failure, and whether the
  end is reported together with the last rows (\<open>eager\<close>) or by the call after them; the
  loop of \<^verbatim>\<open>readParquet\<close> copes with both.
\<close>

record pqReader =
  rowsLeft :: "MetRow list"
  corrupt :: bool
  eager :: bool

datatype read_end = AtEOF | Failed

text \<open>
  What a call \<^verbatim>\<open>r.Read(buf)\<close> with \<open>n\<close> the length of \<open>buf\<close> takes from the file: the
  values of the next rows and the error it returns. The reader is taken to fill the
  buffer whenever \<open>n\<close> rows are left, and to return all rows that are left otherwise.
\<close>

definition pqRead :: "nat \<Rightarrow> pqReader \<Rightarrow> MetRow list \<times> read_end option \<times> pqReader" where
  "pqRead n r =
     (let chunk = take n (rowsLeft r); rest = drop n (rowsLeft r) in
      if rest = [] \<and> (chunk = [] \<or> eager r)
      then (chunk, Some (if corrupt r then Failed else AtEOF), r\<lparr>rowsLeft := []\<rparr>)
      else (chunk, None, r\<lparr>rowsLeft := rest\<rparr>))"

subsection \<open>The rows in memory\<close>

text \<open>
  A \<^verbatim>\<open>MetRow\<close> in memory holds its seven optional fields as pointers, and the loop of
  \<^verbatim>\<open>readParquet\<close> copies such rows out of one buffer that every call of \<^verbatim>\<open>Read\<close> fills
  again. The store holds the \<^verbatim>\<open>int32\<close> and \<^verbatim>\<open>float64\<close> cells the pointers point to;
  \<open>nextFree\<close> is the address of the next cell to be allocated.
\<close>

type_synonym addr = nat

record store =
  ints :: "addr \<rightharpoonup> 32 word"
  floats :: "addr \<rightharpoonup> float64"
  nextFree :: addr

definition emptyStore :: store where
  "emptyStore = \<lparr>ints = Map.empty, floats = Map.empty, nextFree = 0\<rparr>"

text \<open>The struct as it lies in memory: a nil pointer is \<open>None\<close>.\<close>

record memRow =
  mStationID :: string
  mTime :: "64 word"
  pWDIRDeg :: "addr option"
  pWSPDmS :: "addr option"
  pGUSTmS :: "addr option"
  pPREShPa :: "addr option"
  pATMPC :: "addr option"
  pWTMPC :: "addr option"
  pDEWPC :: "addr option"

text \<open>An element of \<^verbatim>\<open>make([]MetRow, 1024)\<close>.\<close>

definition zeroRow :: memRow where
  "zeroRow =
     \<lparr>mStationID = [], mTime = 0, pWDIRDeg = None, pWSPDmS = None, pGUSTmS = None,
      pPREShPa = None, pATMPC = None, pWTMPC = None, pDEWPC = None\<rparr>"

text \<open>
  How the library sets an optional field of a row of the buffer, whose pointer is \<open>p\<close>, to
  the value \<open>v\<close> read from the file. A null makes the pointer nil. For a value, a library
  release that reuses the memory of the row (\<open>reuse\<close>) writes through the pointer when it
  is not nil; otherwise a new cell is allocated.
\<close>

definition storeInt :: "bool \<Rightarrow> store \<Rightarrow> addr option \<Rightarrow> 32 word option \<Rightarrow> store \<times> addr option" where
  "storeInt reuse h p v =
     (case v of
        None \<Rightarrow> (h, None)
      | Some x \<Rightarrow>
          (case (if reuse then p else None) of
             Some a \<Rightarrow> (h\<lparr>ints := (ints h)(a \<mapsto> x)\<rparr>, Some a)
           | None \<Rightarrow>
               (h\<lparr>ints := (ints h)(nextFree h \<mapsto> x), nextFree := Suc (nextFree h)\<rparr>,
                Some (nextFree h))))"

definition storeFloat :: "bool \<Rightarrow> store \<Rightarrow> addr option \<Rightarrow> float64 option \<Rightarrow> store \<times> addr option" where
  "storeFloat reuse h p v =
     (case v of
        None \<Rightarrow> (h, None)
      | Some x \<Rightarrow>
          (case (if reuse then p else None) of
             Some a \<Rightarrow> (h\<lparr>floats := (floats h)(a \<mapsto> x)\<rparr>, Some a)
           | None \<Rightarrow>
               (h\<lparr>floats := (floats h)(nextFree h \<mapsto> x), nextFree := Suc (nextFree h)\<rparr>,
                Some (nextFree h))))"

text \<open>The library reconstructs the row \<open>r\<close> of the file in the row \<open>b\<close> of the buffer.\<close>

definition reconstruct :: "bool \<Rightarrow> store \<Rightarrow> memRow \<Rightarrow> MetRow \<Rightarrow> store \<times> memRow" where
  "reconstruct reuse h b r =
     (case storeInt reuse h (pWDIRDeg b) (WDIRDeg r) of (h1, q1) \<Rightarrow>
      case storeFloat reuse h1 (pWSPDmS b) (WSPDmS r) of (h2, q2) \<Rightarrow>
      case storeFloat reuse h2 (pGUSTmS b) (GUSTmS r) of (h3, q3) \<Rightarrow>
      case storeFloat reuse h3 (pPREShPa b) (PREShPa r) of (h4, q4) \<Rightarrow>
      case storeFloat reuse h4 (pATMPC b) (ATMPC r) of (h5, q5) \<Rightarrow>
      case storeFloat reuse h5 (pWTMPC b) (WTMPC r) of (h6, q6) \<Rightarrow>
      case storeFloat reuse h6 (pDEWPC b) (DEWPC r) of (h7, q7) \<Rightarrow>
        (h7, \<lparr>mStationID = StationID r, mTime = Time r, pWDIRDeg = q1, pWSPDmS = q2,
               pGUSTmS = q3, pPREShPa = q4, pATMPC = q5, pWTMPC = q6, pDEWPC = q7\<rparr>))"

text \<open>\<^verbatim>\<open>Read\<close> fills the buffer from its first row on with the rows it has taken from the file.\<close>

fun fillBuf :: "bool \<Rightarrow> store \<Rightarrow> memRow list \<Rightarrow> MetRow list \<Rightarrow> store \<times> memRow list" where
  "fillBuf reuse h buf [] = (h, buf)"
| "fillBuf reuse h [] (r # rs) = (h, [])"
| "fillBuf reuse h (b # bs) (r # rs) =
     (case reconstruct reuse h b r of
        (h1, b') \<Rightarrow> (case fillBuf reuse h1 bs rs of (h2, bs') \<Rightarrow> (h2, b' # bs')))"

text \<open>The record a row in memory stands for: every pointer followed.\<close>

definition intAt :: "store \<Rightarrow> addr option \<Rightarrow> 32 word option" where
  "intAt h p = (case p of None \<Rightarrow> None | Some a \<Rightarrow> ints h a)"

definition floatAt :: "store \<Rightarrow> addr option \<Rightarrow> float64 option" where
  "floatAt h p = (case p of None \<Rightarrow> None | Some a \<Rightarrow> floats h a)"

definition deref :: "store \<Rightarrow> memRow \<Rightarrow> MetRow" where
  "deref h m =
     \<lparr>StationID = mStationID m, Time = mTime m, WDIRDeg = intAt h (pWDIRDeg m),
      WSPDmS = floatAt h (pWSPDmS m), GUSTmS = floatAt h (pGUSTmS m),
      PREShPa = floatAt h (pPREShPa m), ATMPC = floatAt h (pATMPC m),
      WTMPC = floatAt h (pWTMPC m), DEWPC = floatAt h (pDEWPC m)\<rparr>"

subsection \<open>The read loop\<close>

text \<open>
  The loop of \<^verbatim>\<open>readParquet\<close>: \<open>buf\<close> is the buffer of 1024 rows, \<open>all\<close> the slice of the
  rows collected. \<^verbatim>\<open>append(all, buf[:n]...)\<close> copies the structs, pointers included, so a
  row collected and the row of the buffer it was copied from point to the same cells.
\<close>

function readLoop ::
  "bool \<Rightarrow> pqReader \<Rightarrow> store \<Rightarrow> memRow list \<Rightarrow> memRow list
     \<Rightarrow> store \<times> memRow list \<times> rerror option" where
  "readLoop reuse r h buf all =
     (case pqRead 1024 r of
        (chunk, err, r') \<Rightarrow>
          (case fillBuf reuse h buf chunk of
             (h', buf') \<Rightarrow>
               (let n = length chunk;
                    all' = (if 0 < n then all @ take n buf' else all)
                in case err of
                     Some e \<Rightarrow> (h', all', if e = AtEOF then None else Some ErrDecode)
                   | None \<Rightarrow> readLoop reuse r' h' buf' all')))"
  by pat_completeness auto
termination
proof (relation "measure (\<lambda>(reuse, r, h, buf, all). length (rowsLeft r))")
qed (auto simp: pqRead_def Let_def split: if_splits)

declare readLoop.simps [simp del]

text \<open>
  \<^verbatim>\<open>readParquet\<close>: the rows returned are read through their pointers when the function
  returns, as its caller does.
\<close>

definition readParquet ::
  "('c \<Rightarrow> decoded) \<Rightarrow> bool \<Rightarrow> bool \<Rightarrow> (string \<rightharpoonup> 'c) \<Rightarrow> string
     \<Rightarrow> (MetRow list \<times> rerror option) outcome" where
  "readParquet dec reuse eagerEOF fs path =
     (case fs path of
        None \<Rightarrow> Returns ([], Some ErrOpen)
      | Some c \<Rightarrow>
          (case dec c of
             NotParquet \<Rightarrow> Panics
           | Rows rows bad \<Rightarrow>
               (case readLoop reuse \<lparr>rowsLeft = rows, corrupt = bad, eager = eagerEOF\<rparr>
                       emptyStore (replicate 1024 zeroRow) [] of
                  (h, all, err) \<Rightarrow> Returns (map (deref h) all, err))))"

subsection \<open>Stores that grow\<close>

text \<open>
  The notions the proofs about the read loop use: a store extends another when it has all
  its cells, unchanged; a row in memory lies below an address when its pointers do; a row
  of a new buffer has nil pointers only.
\<close>

definition extends :: "store \<Rightarrow> store \<Rightarrow> bool" where
  "extends h h' =
     (nextFree h \<le> nextFree h'
      \<and> (\<forall>a. a < nextFree h \<longrightarrow> ints h' a = ints h a \<and> floats h' a = floats h a))"

definition below :: "addr \<Rightarrow> addr option \<Rightarrow> bool" where
  "below n p = (case p of None \<Rightarrow> True | Some a \<Rightarrow> a < n)"

definition ptrsBelow :: "addr \<Rightarrow> memRow \<Rightarrow> bool" where
  "ptrsBelow n m =
     (below n (pWDIRDeg m) \<and> below n (pWSPDmS m) \<and> below n (pGUSTmS m) \<and> below n (pPREShPa m)
      \<and> below n (pATMPC m) \<and> below n (pWTMPC m) \<and> below n (pDEWPC m))"

definition nilRow :: "memRow \<Rightarrow> bool" where
  "nilRow m =
     (pWDIRDeg m = None \<and> pWSPDmS m = None \<and> pGUSTmS m = None \<and> pPREShPa m = None
      \<and> pATMPC m = None \<and> pWTMPC m = None \<and> pDEWPC m = None)"

section \<open>Re-encoding as a record batch\<close>

text \<open>An Arrow record of the nine columns; a null entry is \<open>None\<close>.\<close>

record arrowRecord =
  station_id :: "string list"
  time :: "64 word list"
  wdir_deg :: "32 word option list"
  wspd_ms :: "float64 option list"
  gust_ms :: "float64 option list"
  pres_hpa :: "float64 option list"
  atmp_c :: "float64 option list"
  wtmp_c :: "float64 option list"
  dewp_c :: "float64 option list"
  numRows :: nat

definition emptyBuilders :: arrowRecord where
  "emptyBuilders =
     \<lparr>station_id = [], time = [], wdir_deg = [], wspd_ms = [], gust_ms = [], pres_hpa = [],
      atmp_c = [], wtmp_c = [], dewp_c = [], numRows = 0\<rparr>"

text \<open>One turn of the loop over the rows: every builder gets one value or one null.\<close>

definition appendRow :: "arrowRecord \<Rightarrow> MetRow \<Rightarrow> arrowRecord" where
  "appendRow b r =
     b\<lparr>station_id := station_id b @ [StationID r],
       time := time b @ [Time r],
       wdir_deg := wdir_deg b @ [WDIRDeg r],
       wspd_ms := wspd_ms b @ [WSPDmS r],
       gust_ms := gust_ms b @ [GUSTmS r],
       pres_hpa := pres_hpa b @ [PREShPa r],
       atmp_c := atmp_c b @ [ATMPC r],
       wtmp_c := wtmp_c b @ [WTMPC r],
       dewp_c := dewp_c b @ [DEWPC r]\<rparr>"

definition rowsToRecord :: "MetRow list \<Rightarrow> arrowRecord" where
  "rowsToRecord rows = (foldl appendRow emptyBuilders rows)\<lparr>numRows := length rows\<rparr>"

section \<open>The stream endpoint\<close>

datatype ipc_message = SchemaMsg | BatchMsg arrowRecord | EndOfStream

text \<open>
  The body of a response: the text of \<^verbatim>\<open>http.Error\<close>; a complete Arrow stream; or, when
  the handler panics, the batches it had written until then (the server then drops the
  connection; how much of the stream has reached the client by then is not modelled).
\<close>

datatype http_body = ErrorText | ArrowStream "ipc_message list" | Aborted "ipc_message list"

record response =
  respStatus :: nat
  respBody :: http_body
  respLog :: "log_entry list"

text \<open>
  What \<^verbatim>\<open>streamHandler\<close> depends on: the data directory (from the environment), whether
  \<^verbatim>\<open>ipc.NewWriter\<close> fails, what \<^verbatim>\<open>filepath.Glob\<close> returns for a pattern, the file system,
  the decoder and the two properties of the Parquet library's reader, and whether writing
  the batch made from a file fails.
\<close>

record 'c stream_env =
  sDataDir :: string
  newWriterFails :: bool
  sJoinPath :: "string \<Rightarrow> string \<Rightarrow> string"
  sGlob :: "string \<Rightarrow> string list"
  sFiles :: "string \<rightharpoonup> 'c"
  sDecode :: "'c \<Rightarrow> decoded"
  sReuse :: bool
  sEagerEOF :: bool
  ipcWriteFails :: "string \<Rightarrow> bool"

definition readFile :: "'c stream_env \<Rightarrow> string \<Rightarrow> (MetRow list \<times> rerror option) outcome" where
  "readFile env p = readParquet (sDecode env) (sReuse env) (sEagerEOF env) (sFiles env) p"

text \<open>
  The loop over the matches: whether it ended in a panic, the batches written and the log
  lines of the handler, in order. A panic of \<^verbatim>\<open>readParquet\<close> is not recovered by the
  handler, so the files after it are not read.
\<close>

fun streamFiles :: "'c stream_env \<Rightarrow> string list \<Rightarrow> bool \<times> ipc_message list \<times> log_entry list" where
  "streamFiles env [] = (False, [], [])"
| "streamFiles env (p # ps) =
     (case readFile env p of
        Panics \<Rightarrow> (True, [], [])
      | Returns (rows, err) \<Rightarrow>
          if err \<noteq> None then
            (case streamFiles env ps of (pan, msgs, lg) \<Rightarrow> (pan, msgs, LogWarnRead p # lg))
          else if length rows = 0 then streamFiles env ps
          else
            (case streamFiles env ps of
               (pan, msgs, lg) \<Rightarrow>
                 if ipcWriteFails env p
                 then (pan, msgs, LogErrIpcWrite p # LogSent p (length rows) # lg)
                 else (pan, BatchMsg (rowsToRecord rows) # msgs, LogSent p (length rows) # lg)))"

definition streamHandler :: "'c stream_env \<Rightarrow> response" where
  "streamHandler env =
     (if newWriterFails env then \<lparr>respStatus = 500, respBody = ErrorText, respLog = []\<rparr>
      else
        (let matches = sGlob env (sJoinPath env (sDataDir env) ''*_latest.parquet'') in
         if length matches = 0
         then \<lparr>respStatus = 200, respBody = ArrowStream [SchemaMsg, EndOfStream],
               respLog = [LogWarnNoFiles (sDataDir env)]\<rparr>
         else
           (case streamFiles env matches of
              (pan, msgs, lg) \<Rightarrow>
                \<lparr>respStatus = 200,
                 respBody = (if pan then Aborted msgs
                             else ArrowStream (SchemaMsg # msgs @ [EndOfStream])),
                 respLog = lg\<rparr>)))"

text \<open>
  The terms of the claim C8 as amended: a match is read without failure; the rows read
  from it; it gives a batch when it holds at least one row and the batch is written.
\<close>

definition readsOK :: "'c stream_env \<Rightarrow> string \<Rightarrow> bool" where
  "readsOK env p = (case readFile env p of Panics \<Rightarrow> False | Returns (rows, err) \<Rightarrow> err = None)"

definition rowsOf :: "'c stream_env \<Rightarrow> string \<Rightarrow> MetRow list" where
  "rowsOf env p = (case readFile env p of Panics \<Rightarrow> [] | Returns (rows, err) \<Rightarrow> rows)"

definition emitted :: "'c stream_env \<Rightarrow> string \<Rightarrow> bool" where
  "emitted env p = (rowsOf env p \<noteq> [] \<and> \<not> ipcWriteFails env p)"

definition batchOf :: "'c stream_env \<Rightarrow> string \<Rightarrow> ipc_message" where
  "batchOf env p = BatchMsg (rowsToRecord (rowsOf env p))"

section \<open>What the read loop finds\<close>

text \<open>The header line and the candidate data rows the read loop finds in a document.\<close>

definition headerLine :: "string \<Rightarrow> string list option" where
  "headerLine body = (case scanLoop (NewReader body) None [] of Inr (h, d) \<Rightarrow> h | Inl e \<Rightarrow> None)"

definition candidateRows :: "string \<Rightarrow> string list list" where
  "candidateRows body = (case scanLoop (NewReader body) None [] of Inr (h, d) \<Rightarrow> d | Inl e \<Rightarrow> [])"

definition headerIdx :: "golib \<Rightarrow> string \<Rightarrow> (string \<rightharpoonup> nat)" where
  "headerIdx lib body =
     buildIdx lib 0 (case headerLine body of None \<Rightarrow> defaultHeader | Some h \<Rightarrow> h) Map.empty"

text \<open>The \<^verbatim>\<open>float64\<close> nearest to \<open>m \<sqdot> 10\<^sup>e\<close>: the value of the Go constant so written.\<close>

definition float64_of :: "nat \<Rightarrow> int \<Rightarrow> float64" where
  "float64_of m e = fst (decimalToFloat64 False m e)"

section \<open>The read loop never fails\<close>

lemma NewReader_eofOnly: "eofOnly (NewReader body)"
  by (simp add: eofOnly_def NewReader_def)

lemma scanLoop_ok: "eofOnly r \<Longrightarrow> \<exists>h d. scanLoop r header data = Inr (h, d)"
proof (induction r header data rule: scanLoop.induct)
  case (1 r header data)
  obtain line p err r' where rl: "ReadLine r = (line, p, err, r')"
    by (cases "ReadLine r") auto
  from ReadLine_eofOnly [OF "1.prems" rl]
  have e: "err = None \<or> err = Some EOF" and e': "eofOnly r'"
    by simp_all
  show ?case
  proof (cases err)
    case (Some x)
    with e rl show ?thesis
      by (simp add: scanLoop.simps [of r header data])
  next
    case None
    note ih = "1.IH" [OF rl [symmetric] refl refl None]
    show ?thesis
    proof (cases "HasPrefix line ''#''")
      case True
      with ih(1) [OF True refl e'] rl None show ?thesis
        by (simp add: scanLoop.simps [of r header data] Let_def)
    next
      case nc: False
      show ?thesis
      proof (cases "TrimSpace line = []")
        case True
        with ih(2) [OF nc True e'] rl None nc show ?thesis
          by (simp add: scanLoop.simps [of r header data])
      next
        case False
        with ih(3) [OF nc False refl e'] rl None nc show ?thesis
          by (simp add: scanLoop.simps [of r header data] Let_def)
      qed
    qed
  qed
qed

lemma scanLoop_parts:
  "scanLoop (NewReader body) None [] = Inr (headerLine body, candidateRows body)"
proof -
  from scanLoop_ok [OF NewReader_eofOnly]
  obtain h d where "scanLoop (NewReader body) None [] = Inr (h, d)" by blast
  then show ?thesis by (simp add: headerLine_def candidateRows_def)
qed

lemma parse_eq:
  "parseNdbcStdMet lib station body maxRows =
     Inr (map (rowToMet lib station (headerIdx lib body))
            (if 0 < maxRows \<and> maxRows < int (length (candidateRows body))
             then take (nat maxRows) (candidateRows body) else candidateRows body))"
  by (simp add: parseNdbcStdMet_def scanLoop_parts headerIdx_def)

section \<open>Concrete inputs\<close>

text \<open>
  Library parameters for the concrete inputs below, none of which reaches them: the
  identity for the Unicode upper-casing and 0 for a far date.
\<close>

definition asciiLib :: golib where
  "asciiLib = \<lparr>unicodeUpper = (\<lambda>s. s), farDate = (\<lambda>year month day hour minute. 0)\<rparr>"

text \<open>
  The document of the first end-to-end scenario, with the columns WVHT to PTDY for the
  elided ones; a document with two qualifying comment lines; a record.
\<close>

definition scenario1 :: string where
  "scenario1 =
     ''#YYYY MM DD hh mm WDIR WSPD GST WVHT DPD APD MWD PRES PTDY ATMP WTMP DEWP'' @ [LF] @
     ''2024 03 15 12 00 180 5.1 6.2 MM MM MM MM 1015.2 MM 99 21.3 99'' @ [LF]"

definition header1 :: "string list" where
  "header1 =
     [''YYYY'', ''MM'', ''DD'', ''hh'', ''mm'', ''WDIR'', ''WSPD'', ''GST'', ''WVHT'', ''DPD'',
      ''APD'', ''MWD'', ''PRES'', ''PTDY'', ''ATMP'', ''WTMP'', ''DEWP'']"

definition row1 :: "string list" where
  "row1 =
     [''2024'', ''03'', ''15'', ''12'', ''00'', ''180'', ''5.1'', ''6.2'', ''MM'', ''MM'',
      ''MM'', ''MM'', ''1015.2'', ''MM'', ''99'', ''21.3'', ''99'']"

definition twoHeaders :: string where
  "twoHeaders =
     ''#YY MM DD hh mm WDIR WSPD'' @ [LF] @
     ''#YY MM DD hh mm WSPD WDIR'' @ [LF] @
     ''24 03 15 12 00 180 5.1'' @ [LF]"

definition sampleRow :: MetRow where
  "sampleRow =
     \<lparr>StationID = ''SANF1'', Time = 1702641600, WDIRDeg = Some 180, WSPDmS = None,
      GUSTmS = None, PREShPa = None, ATMPC = None, WTMPC = Some (Finite 21), DEWPC = None\<rparr>"

text \<open>
  A record one hour later with another wind direction, and a list of 1025 records: one
  more than the buffer of \<^verbatim>\<open>readParquet\<close> holds.
\<close>

definition laterRow :: MetRow where
  "laterRow = sampleRow\<lparr>Time := 1702645200, WDIRDeg := Some 7\<rparr>"



text \<open>
  A data directory with two matching files: the first holds no rows, the second holds one.
  File contents are what the decoder finds in them.
\<close>

definition twoFiles :: "decoded stream_env" where
  "twoFiles =
     \<lparr>sDataDir = ''/data'', newWriterFails = False,
      sJoinPath = (\<lambda>d f. d @ ''/'' @ f),
      sGlob = (\<lambda>pat. [''/data/LONF1_latest.parquet'', ''/data/SANF1_latest.parquet'']),
      sFiles = [''/data/LONF1_latest.parquet'' \<mapsto> Rows [] False,
                ''/data/SANF1_latest.parquet'' \<mapsto> Rows [sampleRow] False],
      sDecode = (\<lambda>c. c), sReuse = True, sEagerEOF = True, ipcWriteFails = (\<lambda>p. False)\<rparr>"

text \<open>The same data directory with no matching file.\<close>

definition noFiles :: "decoded stream_env" where
  "noFiles = twoFiles\<lparr>sGlob := (\<lambda>pat. []), sFiles := Map.empty\<rparr>"

text \<open>
  A data directory with three matching files, the second of which is no Parquet file.
\<close>

definition threeFiles :: "decoded stream_env" where
  "threeFiles =
     twoFiles
       \<lparr>sGlob := (\<lambda>pat. [''/data/AAAA1_latest.parquet'', ''/data/BBBB1_latest.parquet'',
                         ''/data/CCCC1_latest.parquet'']),
        sFiles := [''/data/AAAA1_latest.parquet'' \<mapsto> Rows [sampleRow] False,
                   ''/data/BBBB1_latest.parquet'' \<mapsto> NotParquet,
                   ''/data/CCCC1_latest.parquet'' \<mapsto> Rows [laterRow] False]\<rparr>"

text \<open>An ingest environment whose source answers every request with an empty document.\<close>

definition emptySource :: "string ingest_env" where
  "emptySource =
     \<lparr>iLib = asciiLib, iHttpGet = (\<lambda>u. Response 200 (Some [])), iMkdirFails = False,
      iJoinPath = (\<lambda>d f. d @ ''/'' @ f), iEncode = (\<lambda>rows. ''PAR1''),
      iWriteFault = (\<lambda>p. NoFault)\<rparr>"

text \<open>One whose source answers with the document of the first scenario.\<close>

definition scenarioSource :: "string ingest_env" where
  "scenarioSource =
     \<lparr>iLib = asciiLib, iHttpGet = (\<lambda>u. Response 200 (Some scenario1)), iMkdirFails = False,
      iJoinPath = (\<lambda>d f. d @ ''/'' @ f), iEncode = (\<lambda>rows. ''PAR1''),
      iWriteFault = (\<lambda>p. NoFault)\<rparr>"

section \<open>Evaluation\<close>

lemma char_of_eval:
  "char_of (n::nat) = Char (odd n) (odd (n div 2)) (odd (n div 4)) (odd (n div 8))
      (odd (n div 16)) (odd (n div 32)) (odd (n div 64)) (odd (n div 128))"
  by (simp add: char_of_def bit_iff_odd)

lemmas str_ev = HasPrefix_def TrimPrefix_def TrimSpace_def trimLeft.simps trimRightRev.simps
  Fields_def fieldsFrom.simps isAsciiSpace_def isSpace2_def isSpace3_def byte_def

lemmas rd_ev = ReadLine_def ReadSlice.simps NewReader_def fill_eof fill_data bufSize_def

lemmas num_ev = atofP_def ParseFloat_def special_def lowerASCII_def byte_def isDigit_def
  digitVal_def readExp_def isHexLetter_def hexVal_def underscoreOK_def
  binaryToFloat64_def decimalToFloat64_def roundFloat64_def bitLen.simps fracGePow2_def
  pow2_def atoiP_def ParseInt_def ParseUint_def maxUint64_def Let_def Atoi_def char_of_eval

lemmas date_ev = unixOfDate_def int32Range_def Date_Unix_def norm_def daysSinceEpoch_def
  daysBefore_def isLeap_def

lemmas up_ev = ToUpper_def upperASCII_def byte_def char_of_eval

section \<open>The scalar parsers\<close>

text \<open>
  C3. Each of the tokens \<^verbatim>\<open>""\<close>, \<^verbatim>\<open>"99"\<close>, \<^verbatim>\<open>"999"\<close>, \<^verbatim>\<open>"9999"\<close> and \<^verbatim>\<open>"99.0"\<close> is absent for the
  integer parser and for the real parser; \<^verbatim>\<open>"99.0"\<close> parses as the real number 99 without
  error and is dropped by the comparison with the sentinel that follows the parsing.
\<close>

theorem C3_sentinel_tokens_absent:
  "atoiP '''' = None \<and> atoiP ''99'' = None \<and> atoiP ''999'' = None \<and> atoiP ''9999'' = None
   \<and> atoiP ''99.0'' = None
   \<and> atofP '''' = None \<and> atofP ''99'' = None \<and> atofP ''999'' = None \<and> atofP ''9999'' = None
   \<and> atofP ''99.0'' = None
   \<and> ParseFloat ''99.0'' = (Finite 99, None)"
  by (simp add: num_ev)

theorem C3_sentinel_witness:
  "atoiP ''999'' = None \<and> atofP ''99.0'' = None"
  using C3_sentinel_tokens_absent by simp

text \<open>
  What holds of the claim C4: a real token that parses to a value other than the sentinels
  is returned as parsed, and so is an integer token whose value fits 32 bits.
\<close>

lemma atofP_parsed:
  "s \<noteq> [] \<Longrightarrow> ParseFloat s = (v, None) \<Longrightarrow> \<not> feq v 99 \<Longrightarrow> \<not> feq v 999 \<Longrightarrow> \<not> feq v 9999
     \<Longrightarrow> atofP s = Some v"
  by (simp add: atofP_def)

lemma atoiP_parsed_int32:
  assumes "ParseInt s = (v, None)" "v \<noteq> 99" "v \<noteq> 999" "v \<noteq> 9999"
    and "- (2 ^ 31) \<le> v" "v < 2 ^ 31"
  shows "\<exists>w. atoiP s = Some w \<and> sint w = v"
proof -
  from assms(1) have "s \<noteq> []"
    by (auto simp: ParseInt_def)
  with assms(1-4) have "atoiP s = Some (word_of_int v)"
    by (simp add: atoiP_def)
  moreover from assms(5,6) have "sint (word_of_int v :: 32 word) = v"
    by (simp add: sint_sbintrunc' signed_take_bit_int_eq_self)
  ultimately show ?thesis by simp
qed

text \<open>
  C4, at the token \<^verbatim>\<open>"4294967297"\<close> (\<open>2\<^sup>3\<^sup>2 + 1\<close>): \<^verbatim>\<open>ParseInt\<close> with 64 bits accepts it,
  it is no sentinel, and \<^verbatim>\<open>int32(v)\<close> keeps the low 32 bits, so the integer parser
  returns 1 and not the integer the token denotes. At \<^verbatim>\<open>"4294967395"\<close> (\<open>2\<^sup>3\<^sup>2 + 99\<close>) it
  returns the sentinel 99 as a value.
\<close>

theorem C4_integer_narrowed_to_32_bits:
  "ParseInt ''4294967297'' = (4294967297, None) \<and> atoiP ''4294967297'' = Some 1
   \<and> ParseInt ''4294967395'' = (4294967395, None) \<and> atoiP ''4294967395'' = Some 99"
  by (simp add: num_ev)

theorem C4_narrowing_witness:
  "atoiP ''4294967297'' \<noteq> None \<and> sint (the (atoiP ''4294967297'')) = 1"
  using C4_integer_narrowed_to_32_bits by simp

section \<open>The parser\<close>

text \<open>
  C9. For every station identifier, input and cap the parser returns a record list: the
  buffered reader over the in-memory input has no error but the end of the data to report
  (\<open>ReadLine_eofOnly\<close>), and the read loop ends (it is a total function).
\<close>

theorem C9_parser_never_fails:
  "\<exists>rows. parseNdbcStdMet lib station body maxRows = Inr rows"
proof -
  have "eofOnly (NewReader body)"
    by (rule NewReader_eofOnly)
  then obtain header data where "scanLoop (NewReader body) None [] = Inr (header, data)"
    using scanLoop_ok by blast
  then show ?thesis
    by (simp add: parseNdbcStdMet_def Let_def)
qed

theorem C9_parser_witness:
  "\<exists>rows. parseNdbcStdMet asciiLib ''SANF1'' scenario1 48 = Inr rows"
  by (rule C9_parser_never_fails)

text \<open>
  Whatever the header, the month and the minute are read from the same column: both names
  are looked up under the key \<^verbatim>\<open>MM\<close>.
\<close>

lemma month_and_minute_same_column:
  "get lib cols idx ''MM'' = get lib cols idx ''mm''"
  by (simp add: get_def up_ev)

lemma scan_scenario1: "scanLoop (NewReader scenario1) None [] = Inr (Some header1, [row1])"
  by (simp add: scenario1_def header1_def row1_def scanLoop.simps rd_ev str_ev)

lemma get_scenario1:
  "get lib row1 (buildIdx lib 0 header1 Map.empty) ''YYYY'' = ''2024''"
  "get lib row1 (buildIdx lib 0 header1 Map.empty) ''MM'' = ''00''"
  "get lib row1 (buildIdx lib 0 header1 Map.empty) ''DD'' = ''15''"
  "get lib row1 (buildIdx lib 0 header1 Map.empty) ''HH'' = ''12''"
  "get lib row1 (buildIdx lib 0 header1 Map.empty) ''mm'' = ''00''"
  "get lib row1 (buildIdx lib 0 header1 Map.empty) ''WDIR'' = ''180''"
  "get lib row1 (buildIdx lib 0 header1 Map.empty) ''WSPD'' = ''5.1''"
  "get lib row1 (buildIdx lib 0 header1 Map.empty) ''GST'' = ''6.2''"
  "get lib row1 (buildIdx lib 0 header1 Map.empty) ''PRES'' = ''1015.2''"
  "get lib row1 (buildIdx lib 0 header1 Map.empty) ''ATMP'' = ''99''"
  "get lib row1 (buildIdx lib 0 header1 Map.empty) ''WTMP'' = ''21.3''"
  "get lib row1 (buildIdx lib 0 header1 Map.empty) ''DEWP'' = ''99''"
  by (simp_all add: get_def header1_def row1_def up_ev)

lemma tokens_scenario1:
  "Atoi ''2024'' = (2024, None)" "Atoi ''00'' = (0, None)" "Atoi ''15'' = (15, None)"
  "Atoi ''12'' = (12, None)" "atoiP ''180'' = Some 180"
  "atofP ''5.1'' = Some (float64_of 51 (- 1))" "atofP ''6.2'' = Some (float64_of 62 (- 1))"
  "atofP ''1015.2'' = Some (float64_of 10152 (- 1))" "atofP ''99'' = None"
  "atofP ''21.3'' = Some (float64_of 213 (- 1))"
  by (simp_all add: num_ev float64_of_def)

lemma dates_scenario1:
  "Date_Unix 2024 0 15 12 0 0 = 1702641600" "Date_Unix 2024 3 15 12 0 0 = 1710504000"
  by (simp_all add: date_ev)

lemma row_scenario1:
  "rowToMet lib ''SANF1'' (buildIdx lib 0 header1 Map.empty) row1 =
     \<lparr>StationID = ''SANF1'', Time = 1702641600, WDIRDeg = Some 180,
      WSPDmS = Some (float64_of 51 (- 1)), GUSTmS = Some (float64_of 62 (- 1)),
      PREShPa = Some (float64_of 10152 (- 1)), ATMPC = None,
      WTMPC = Some (float64_of 213 (- 1)), DEWPC = None\<rparr>"
  unfolding rowToMet_def get_scenario1
  by (simp add: tokens_scenario1 dates_scenario1 unixOfDate_def int32Range_def up_ev)

lemma parse_scenario1:
  "parseNdbcStdMet lib ''SANF1'' scenario1 48 =
     Inr [\<lparr>StationID = ''SANF1'', Time = 1702641600, WDIRDeg = Some 180,
           WSPDmS = Some (float64_of 51 (- 1)), GUSTmS = Some (float64_of 62 (- 1)),
           PREShPa = Some (float64_of 10152 (- 1)), ATMPC = None,
           WTMPC = Some (float64_of 213 (- 1)), DEWPC = None\<rparr>]"
  by (simp add: parseNdbcStdMet_def scan_scenario1 row_scenario1)

text \<open>
  C1, evaluated at the scenario's document (the elided columns are WVHT to PTDY): one record
  comes out, with the fields the claim names except the timestamp. The index map is keyed
  by upper-cased names, so the minute column \<^verbatim>\<open>mm\<close> takes the key \<^verbatim>\<open>MM\<close> from the month
  column; the month is read from the minute token \<^verbatim>\<open>00\<close>, and month 0 of 2024 is
  normalised to December 2023. The record's time is 1702641600 (2023-12-15T12:00:00Z), not
  1710504000 (2024-03-15T12:00:00Z).
\<close>

theorem C1_scenario_month_read_from_minute_column:
  "parseNdbcStdMet lib ''SANF1'' scenario1 48 =
     Inr [\<lparr>StationID = ''SANF1'', Time = 1702641600, WDIRDeg = Some 180,
           WSPDmS = Some (float64_of 51 (- 1)), GUSTmS = Some (float64_of 62 (- 1)),
           PREShPa = Some (float64_of 10152 (- 1)), ATMPC = None,
           WTMPC = Some (float64_of 213 (- 1)), DEWPC = None\<rparr>]
   \<and> Date_Unix 2024 0 15 12 0 0 = 1702641600
   \<and> Date_Unix 2024 3 15 12 0 0 = 1710504000"
  by (simp add: parse_scenario1 dates_scenario1)

theorem C1_scenario_witness:
  "map Time (projr (parseNdbcStdMet asciiLib ''SANF1'' scenario1 48)) = [1702641600]"
  using C1_scenario_month_read_from_minute_column [of asciiLib] by simp

lemma scan_twoHeaders:
  "scanLoop (NewReader twoHeaders) None [] =
     Inr (Some [''YY'', ''MM'', ''DD'', ''hh'', ''mm'', ''WSPD'', ''WDIR''],
          [[''24'', ''03'', ''15'', ''12'', ''00'', ''180'', ''5.1'']])"
  by (simp add: twoHeaders_def scanLoop.simps rd_ev str_ev)

lemma tokens_twoHeaders:
  "atoiP ''5.1'' = None" "atofP ''180'' = Some (float64_of 180 0)"
  by (simp_all add: num_ev float64_of_def)

text \<open>
  C2, evaluated at a document with two qualifying comment lines that name the sixth and
  seventh columns in opposite orders: the header the loop leaves is the second line's, and
  the row is read by it (\<^verbatim>\<open>WDIR\<close> from the token \<^verbatim>\<open>5.1\<close>, which is no integer, and
  \<^verbatim>\<open>WSPD\<close> from the token \<^verbatim>\<open>180\<close>).
\<close>

theorem C2_last_qualifying_comment_line_is_the_header:
  "headerLine twoHeaders = Some [''YY'', ''MM'', ''DD'', ''hh'', ''mm'', ''WSPD'', ''WDIR'']
   \<and> map WDIRDeg (projr (parseNdbcStdMet lib ''SANF1'' twoHeaders 48)) = [None]
   \<and> map WSPDmS (projr (parseNdbcStdMet lib ''SANF1'' twoHeaders 48)) = [Some (float64_of 180 0)]"
  by (simp add: headerLine_def parseNdbcStdMet_def scan_twoHeaders rowToMet_def get_def up_ev
      tokens_twoHeaders)

theorem C2_last_header_witness:
  "headerLine twoHeaders \<noteq> Some [''YY'', ''MM'', ''DD'', ''hh'', ''mm'', ''WDIR'', ''WSPD'']"
  using C2_last_qualifying_comment_line_is_the_header [of asciiLib] by simp

section \<open>Failures of the atomic writer\<close>

text \<open>
  Whatever fails, \<^verbatim>\<open>writeParquet\<close> returns an error and leaves the target path as it was;
  when the encoder or a close fails, the temporary file is gone afterwards.
\<close>

lemma tmp_neq_path: "path @ ''.tmp'' \<noteq> path"
proof
  assume "path @ ''.tmp'' = path"
  then have "length (path @ ''.tmp'') = length path" by simp
  then show False by simp
qed

lemma writeParquet_failure_keeps_target:
  "fault \<noteq> NoFault \<Longrightarrow> writeParquet enc fault fs path rows = (e, fs')
     \<Longrightarrow> e \<noteq> None \<and> fs' path = fs path"
  using tmp_neq_path [of path]
  by (cases fault) (auto simp: writeParquet_def Let_def)

lemma writeParquet_write_failure_removes_tmp:
  "fault = WriteFails \<or> fault = WriterCloseFails \<or> fault = FileCloseFails
     \<Longrightarrow> writeParquet enc fault fs path rows = (e, fs')
     \<Longrightarrow> e \<noteq> None \<and> fs' (path @ ''.tmp'') = None \<and> fs' path = fs path"
  using tmp_neq_path [of path]
  by (auto simp: writeParquet_def Let_def)

text \<open>
  C5, when the failure is that of the final \<^verbatim>\<open>os.Rename\<close>: the error is returned, the
  target is untouched, and the temporary file stays, fully written. (The three branches
  before it remove the temporary file; this one returns the error of the rename as it is.)
\<close>

theorem C5_failed_rename_leaves_temporary_file:
  "writeParquet enc RenameFails fs path rows = (Some ErrRename, fs(path @ ''.tmp'' \<mapsto> enc rows))
   \<and> snd (writeParquet enc RenameFails fs path rows) (path @ ''.tmp'') = Some (enc rows)
   \<and> snd (writeParquet enc RenameFails fs path rows) path = fs path"
  using tmp_neq_path [of path]
  by (simp add: writeParquet_def Let_def)

theorem C5_failed_rename_witness:
  "snd (writeParquet (\<lambda>rows. rows) RenameFails Map.empty ''/data/SANF1_latest.parquet'' [sampleRow])
     ''/data/SANF1_latest.parquet.tmp'' = Some [sampleRow]"
  using C5_failed_rename_leaves_temporary_file
    [of "\<lambda>rows. rows" Map.empty "''/data/SANF1_latest.parquet''" "[sampleRow]"]
  by simp

section \<open>Writing and reading back\<close>

text \<open>
  Cells allocated by a call of \<^verbatim>\<open>Read\<close> leave the cells below them as they were, and the
  rows filled in then stand for the rows of the file. This needs every value to get a cell
  of its own: the library allocates one, or the pointer in the buffer is nil.
\<close>

lemma extends_refl: "extends h h"
  by (simp add: extends_def)

lemma extends_trans: "extends h1 h2 \<Longrightarrow> extends h2 h3 \<Longrightarrow> extends h1 h3"
  by (auto simp: extends_def)

lemma below_mono: "below n p \<Longrightarrow> n \<le> m \<Longrightarrow> below m p"
  by (auto simp: below_def split: option.splits)

lemma intAt_extends: "extends h h' \<Longrightarrow> below (nextFree h) p \<Longrightarrow> intAt h' p = intAt h p"
  by (auto simp: extends_def below_def intAt_def split: option.splits)

lemma floatAt_extends: "extends h h' \<Longrightarrow> below (nextFree h) p \<Longrightarrow> floatAt h' p = floatAt h p"
  by (auto simp: extends_def below_def floatAt_def split: option.splits)

lemma ptrsBelow_mono: "ptrsBelow n m \<Longrightarrow> n \<le> k \<Longrightarrow> ptrsBelow k m"
  by (auto simp: ptrsBelow_def intro: below_mono)

lemma deref_extends: "extends h h' \<Longrightarrow> ptrsBelow (nextFree h) m \<Longrightarrow> deref h' m = deref h m"
  by (simp add: deref_def ptrsBelow_def intAt_extends floatAt_extends)

lemma storeInt_fresh:
  "\<not> reuse \<or> p = None \<Longrightarrow> storeInt reuse h p v = (h', q)
     \<Longrightarrow> extends h h' \<and> below (nextFree h') q \<and> intAt h' q = v"
  by (auto simp: storeInt_def extends_def below_def intAt_def split: option.splits)

lemma storeFloat_fresh:
  "\<not> reuse \<or> p = None \<Longrightarrow> storeFloat reuse h p v = (h', q)
     \<Longrightarrow> extends h h' \<and> below (nextFree h') q \<and> floatAt h' q = v"
  by (auto simp: storeFloat_def extends_def below_def floatAt_def split: option.splits)


lemma reconstruct_fresh:
  assumes f: "\<not> reuse \<or> nilRow b" and r: "reconstruct reuse h b r = (h', b')"
  shows "extends h h' \<and> ptrsBelow (nextFree h') b' \<and> deref h' b' = r"
proof -
  obtain h1 q1 where s1: "storeInt reuse h (pWDIRDeg b) (WDIRDeg r) = (h1, q1)"
    by (cases "storeInt reuse h (pWDIRDeg b) (WDIRDeg r)") auto
  obtain h2 q2 where s2: "storeFloat reuse h1 (pWSPDmS b) (WSPDmS r) = (h2, q2)"
    by (cases "storeFloat reuse h1 (pWSPDmS b) (WSPDmS r)") auto
  obtain h3 q3 where s3: "storeFloat reuse h2 (pGUSTmS b) (GUSTmS r) = (h3, q3)"
    by (cases "storeFloat reuse h2 (pGUSTmS b) (GUSTmS r)") auto
  obtain h4 q4 where s4: "storeFloat reuse h3 (pPREShPa b) (PREShPa r) = (h4, q4)"
    by (cases "storeFloat reuse h3 (pPREShPa b) (PREShPa r)") auto
  obtain h5 q5 where s5: "storeFloat reuse h4 (pATMPC b) (ATMPC r) = (h5, q5)"
    by (cases "storeFloat reuse h4 (pATMPC b) (ATMPC r)") auto
  obtain h6 q6 where s6: "storeFloat reuse h5 (pWTMPC b) (WTMPC r) = (h6, q6)"
    by (cases "storeFloat reuse h5 (pWTMPC b) (WTMPC r)") auto
  obtain h7 q7 where s7: "storeFloat reuse h6 (pDEWPC b) (DEWPC r) = (h7, q7)"
    by (cases "storeFloat reuse h6 (pDEWPC b) (DEWPC r)") auto
  from r s1 s2 s3 s4 s5 s6 s7
  have h': "h' = h7"
    and b': "b' = \<lparr>mStationID = StationID r, mTime = Time r, pWDIRDeg = q1, pWSPDmS = q2,
               pGUSTmS = q3, pPREShPa = q4, pATMPC = q5, pWTMPC = q6, pDEWPC = q7\<rparr>"
    by (simp_all add: reconstruct_def)
  from f have p: "\<not> reuse \<or> pWDIRDeg b = None" "\<not> reuse \<or> pWSPDmS b = None"
    "\<not> reuse \<or> pGUSTmS b = None" "\<not> reuse \<or> pPREShPa b = None" "\<not> reuse \<or> pATMPC b = None"
    "\<not> reuse \<or> pWTMPC b = None" "\<not> reuse \<or> pDEWPC b = None"
    by (auto simp: nilRow_def)
  note f1 = storeInt_fresh [OF p(1) s1] and f2 = storeFloat_fresh [OF p(2) s2]
    and f3 = storeFloat_fresh [OF p(3) s3] and f4 = storeFloat_fresh [OF p(4) s4]
    and f5 = storeFloat_fresh [OF p(5) s5] and f6 = storeFloat_fresh [OF p(6) s6]
    and f7 = storeFloat_fresh [OF p(7) s7]
  have e67: "extends h6 h7" using f7 by simp
  have e57: "extends h5 h7" using f6 e67 by (blast intro: extends_trans)
  have e47: "extends h4 h7" using f5 e57 by (blast intro: extends_trans)
  have e37: "extends h3 h7" using f4 e47 by (blast intro: extends_trans)
  have e27: "extends h2 h7" using f3 e37 by (blast intro: extends_trans)
  have e17: "extends h1 h7" using f2 e27 by (blast intro: extends_trans)
  have e07: "extends h h7" using f1 e17 by (blast intro: extends_trans)
  have n: "nextFree h1 \<le> nextFree h7" "nextFree h2 \<le> nextFree h7" "nextFree h3 \<le> nextFree h7"
    "nextFree h4 \<le> nextFree h7" "nextFree h5 \<le> nextFree h7" "nextFree h6 \<le> nextFree h7"
    using e17 e27 e37 e47 e57 e67 by (simp_all add: extends_def)
  have v: "intAt h7 q1 = WDIRDeg r" "floatAt h7 q2 = WSPDmS r" "floatAt h7 q3 = GUSTmS r"
    "floatAt h7 q4 = PREShPa r" "floatAt h7 q5 = ATMPC r" "floatAt h7 q6 = WTMPC r"
    "floatAt h7 q7 = DEWPC r"
    using f1 f2 f3 f4 f5 f6 f7 e17 e27 e37 e47 e57 e67
    by (simp_all add: intAt_extends floatAt_extends)
  have b: "ptrsBelow (nextFree h7) b'"
    using f1 f2 f3 f4 f5 f6 f7 n by (auto simp: ptrsBelow_def b' intro: below_mono)
  show ?thesis
    using e07 b v by (simp add: h' b' deref_def)
qed

lemma fillBuf_fresh:
  "\<not> reuse \<or> list_all nilRow buf \<Longrightarrow> length chunk \<le> length buf
     \<Longrightarrow> fillBuf reuse h buf chunk = (h', buf')
     \<Longrightarrow> extends h h' \<and> length buf' = length buf
         \<and> drop (length chunk) buf' = drop (length chunk) buf
         \<and> list_all (ptrsBelow (nextFree h')) (take (length chunk) buf')
         \<and> map (deref h') (take (length chunk) buf') = chunk"
proof (induction reuse h buf chunk arbitrary: h' buf' rule: fillBuf.induct)
  case (1 reuse h buf)
  then show ?case by (simp add: extends_refl)
next
  case (2 reuse h r rs)
  then show ?case by simp
next
  case (3 reuse h b bs r rs)
  obtain h1 b1 where rc: "reconstruct reuse h b r = (h1, b1)"
    by (cases "reconstruct reuse h b r") auto
  obtain h2 bs2 where fb: "fillBuf reuse h1 bs rs = (h2, bs2)"
    by (cases "fillBuf reuse h1 bs rs") auto
  from "3.prems"(3) rc fb have eq: "h' = h2" "buf' = b1 # bs2"
    by simp_all
  from "3.prems"(1) have fr: "\<not> reuse \<or> nilRow b" and frs: "\<not> reuse \<or> list_all nilRow bs"
    by auto
  from "3.prems"(2) have len: "length rs \<le> length bs"
    by simp
  note r1 = reconstruct_fresh [OF fr rc]
  note ih = "3.IH" [OF rc [symmetric] frs len fb]
  have "extends h h2"
    using r1 ih by (blast intro: extends_trans)
  moreover have "ptrsBelow (nextFree h2) b1"
    using r1 ih by (auto simp: extends_def intro: ptrsBelow_mono)
  moreover have "deref h2 b1 = r"
    using r1 ih deref_extends [of h1 h2 b1] by simp
  ultimately show ?case
    using ih by (simp add: eq)
qed

lemma readLoop_fresh:
  assumes "\<not> corrupt r" "length buf = 1024" "list_all (ptrsBelow (nextFree h)) acc"
    and "\<not> reuse \<or> rowsLeft r = [] \<or> list_all nilRow buf \<and> length (rowsLeft r) \<le> 1024"
  shows "\<exists>h' acc'. readLoop reuse r h buf acc = (h', acc', None)
           \<and> map (deref h') acc' = map (deref h) acc @ rowsLeft r"
  using assms
proof (induction reuse r h buf acc rule: readLoop.induct)
  case (1 reuse r h buf acc)
  let ?chunk = "take 1024 (rowsLeft r)"
  let ?rest = "drop 1024 (rowsLeft r)"
  obtain h1 buf1 where fb: "fillBuf reuse h buf ?chunk = (h1, buf1)"
    by (cases "fillBuf reuse h buf ?chunk") auto
  have fill: "extends h h1 \<and> length buf1 = length buf
         \<and> list_all (ptrsBelow (nextFree h1)) (take (length ?chunk) buf1)
         \<and> map (deref h1) (take (length ?chunk) buf1) = ?chunk"
  proof (cases "?chunk = []")
    case True
    with fb show ?thesis by (simp add: extends_refl)
  next
    case False
    then have "rowsLeft r \<noteq> []" by auto
    with "1.prems"(4) have "\<not> reuse \<or> list_all nilRow buf" by auto
    moreover have "length ?chunk \<le> length buf" using "1.prems"(2) by simp
    ultimately show ?thesis using fillBuf_fresh [OF _ _ fb] by simp
  qed
  let ?acc1 = "if 0 < length ?chunk then acc @ take (length ?chunk) buf1 else acc"
  have below1: "list_all (ptrsBelow (nextFree h1)) ?acc1"
    using fill "1.prems"(3)
    by (auto simp: list_all_iff extends_def intro: ptrsBelow_mono)
  have "map (deref h1) acc = map (deref h) acc"
    using fill "1.prems"(3) deref_extends [of h h1] by (auto simp: list_all_iff)
  then have vals: "map (deref h1) ?acc1 = map (deref h) acc @ ?chunk"
    using fill by auto
  show ?case
  proof (cases "?rest = [] \<and> (?chunk = [] \<or> eager r)")
    case True
    then have all: "?chunk = rowsLeft r"
      by (metis append_Nil2 append_take_drop_id)
    from True "1.prems"(1) have pr: "pqRead 1024 r = (?chunk, Some AtEOF, r\<lparr>rowsLeft := []\<rparr>)"
      by (simp add: pqRead_def Let_def)
    have "readLoop reuse r h buf acc = (h1, ?acc1, None)"
      by (simp add: readLoop.simps [of reuse r h buf acc] pr fb Let_def)
    with vals all show ?thesis by simp
  next
    case False
    let ?r' = "r\<lparr>rowsLeft := ?rest\<rparr>"
    from False have pr: "pqRead 1024 r = (?chunk, None, ?r')"
      by (auto simp: pqRead_def Let_def)
    have step: "readLoop reuse r h buf acc = readLoop reuse ?r' h1 buf1 ?acc1"
      by (simp add: readLoop.simps [of reuse r h buf acc] pr fb Let_def)
    have c: "\<not> corrupt ?r'" using "1.prems"(1) by simp
    have l: "length buf1 = 1024" using fill "1.prems"(2) by simp
    have i: "\<not> reuse \<or> rowsLeft ?r' = [] \<or> list_all nilRow buf1 \<and> length (rowsLeft ?r') \<le> 1024"
      using "1.prems"(4) by auto
    from "1.IH" [OF pr [symmetric] refl fb [symmetric] refl refl refl c l below1 i]
    obtain h' acc' where res: "readLoop reuse ?r' h1 buf1 ?acc1 = (h', acc', None)"
      and v: "map (deref h') acc' = map (deref h1) ?acc1 @ rowsLeft ?r'"
      by blast
    have "map (deref h1) ?acc1 @ rowsLeft ?r' = map (deref h) acc @ rowsLeft r"
      unfolding vals by simp
    with res v step show ?thesis by simp
  qed
qed

lemma nilRow_zero: "list_all nilRow (replicate n zeroRow)"
  by (simp add: list_all_iff nilRow_def zeroRow_def)

lemma readParquet_fresh:
  assumes "fs path = Some c" "dec c = Rows rows False" "\<not> reuse \<or> length rows \<le> 1024"
  shows "readParquet dec reuse eagerEOF fs path = Returns (rows, None)"
proof -
  let ?r = "\<lparr>rowsLeft = rows, corrupt = False, eager = eagerEOF\<rparr>"
  have "\<exists>h' acc'. readLoop reuse ?r emptyStore (replicate 1024 zeroRow) [] = (h', acc', None)
           \<and> map (deref h') acc' = map (deref emptyStore) [] @ rowsLeft ?r"
    using assms(3) by (intro readLoop_fresh) (auto simp: nilRow_zero)
  then show ?thesis
    using assms(1,2) by (auto simp: readParquet_def)
qed

text \<open>
  What holds of the claim C6. Let the decoder give back, without failure, the rows the
  encoder was given. If \<^verbatim>\<open>writeParquet\<close> returns no error for a record list, then
  \<^verbatim>\<open>readParquet\<close> of the same path in the file system it leaves returns that list, record
  for record (an absent field is \<open>None\<close> on both sides), and no error, provided the list
  has at most 1024 records, so that one call of \<^verbatim>\<open>Read\<close> takes them all, or the library
  allocates a new cell for every value it reads.
\<close>

lemma write_then_read_back:
  assumes codec: "\<And>rs. dec (enc rs) = Rows rs False"
    and written: "writeParquet enc fault fs path rows = (None, fs')"
    and fresh: "\<not> reuse \<or> length rows \<le> 1024"
  shows "readParquet dec reuse eagerEOF fs' path = Returns (rows, None)"
proof -
  from written have "fs' = fs(path @ ''.tmp'' := None, path \<mapsto> enc rows)"
    by (auto simp: writeParquet_def Let_def split: if_splits)
  then have "fs' path = Some (enc rows)" by simp
  then show ?thesis
    using codec fresh by (rule readParquet_fresh)
qed





section \<open>The row cap\<close>




section \<open>The ingest cycle\<close>

text \<open>
  C10. For a station of the cycle (a non-empty name once trimmed) whose fetch succeeds
  with an empty record list, the loop body leaves the file system as it is, whatever the
  writer and its faults would do, and logs the one line \<^verbatim>\<open>no rows parsed\<close>. The loop body
  changes the file system only when the fetch gave at least one record.
\<close>

theorem C10_empty_fetch_writes_nothing:
  "(TrimSpace s0 \<noteq> [] \<and> fetchStation (iLib env) (iHttpGet env) (TrimSpace s0) = Inr []
      \<longrightarrow> runStation env dir (fs, lg) s0 = (fs, lg @ [LogInfoNoRows (TrimSpace s0)]))
   \<and> (fst (runStation env dir (fs, lg) s0) \<noteq> fs
      \<longrightarrow> (\<exists>rows. rows \<noteq> [] \<and> fetchStation (iLib env) (iHttpGet env) (TrimSpace s0) = Inr rows))"
proof (intro conjI impI)
  assume "TrimSpace s0 \<noteq> [] \<and> fetchStation (iLib env) (iHttpGet env) (TrimSpace s0) = Inr []"
  then show "runStation env dir (fs, lg) s0 = (fs, lg @ [LogInfoNoRows (TrimSpace s0)])"
    by (simp add: runStation_def)
next
  assume changed: "fst (runStation env dir (fs, lg) s0) \<noteq> fs"
  show "\<exists>rows. rows \<noteq> [] \<and> fetchStation (iLib env) (iHttpGet env) (TrimSpace s0) = Inr rows"
  proof (cases "fetchStation (iLib env) (iHttpGet env) (TrimSpace s0)")
    case (Inl e)
    with changed show ?thesis
      by (simp add: runStation_def Let_def split: if_splits)
  next
    case (Inr rows)
    with changed have "rows \<noteq> []"
      by (auto simp: runStation_def Let_def split: if_splits)
    with Inr show ?thesis by simp
  qed
qed

lemma parse_empty: "parseNdbcStdMet lib station [] cap = Inr []"
  by (simp add: parseNdbcStdMet_def scanLoop.simps rd_ev)

lemma trim_station: "TrimSpace '' sanf1 '' = ''sanf1''" "TrimSpace ''SANF1'' = ''SANF1''"
  by (simp_all add: str_ev)

theorem C10_empty_fetch_witness:
  "runStation emptySource ''/data'' ([''/data/SANF1_latest.parquet'' \<mapsto> ''old''], []) '' sanf1 ''
     = ([''/data/SANF1_latest.parquet'' \<mapsto> ''old''], [LogInfoNoRows ''sanf1''])
   \<and> (\<exists>rows. rows \<noteq> [] \<and> fetchStation asciiLib (\<lambda>u. Response 200 (Some scenario1)) ''SANF1'' = Inr rows)"
proof -
  have e: "fetchStation (iLib emptySource) (iHttpGet emptySource) (TrimSpace '' sanf1 '') = Inr []"
    by (simp add: fetchStation_def emptySource_def parse_empty)
  have "fst (runStation scenarioSource ''/data'' (Map.empty, []) ''SANF1'') ''/data/SANF1_latest.parquet''
      = Some ''PAR1''"
    by (simp add: runStation_def scenarioSource_def trim_station fetchStation_def parse_scenario1
        writeParquet_def Let_def up_ev)
  then have c: "fst (runStation scenarioSource ''/data'' (Map.empty, []) ''SANF1'') \<noteq> Map.empty"
    by auto
  from C10_empty_fetch_writes_nothing
         [of "'' sanf1 ''" emptySource "''/data''" "[''/data/SANF1_latest.parquet'' \<mapsto> ''old'']" "[]"] e
       C10_empty_fetch_writes_nothing [of "''SANF1''" scenarioSource "''/data''" Map.empty "[]"] c
  show ?thesis
    by (simp add: trim_station scenarioSource_def)
qed

section \<open>The stream endpoint\<close>

text \<open>The columns of a batch are the fields of its rows, nulls where the fields are absent.\<close>

lemma foldl_appendRow:
  "foldl appendRow b rows =
     b\<lparr>station_id := station_id b @ map StationID rows,
       time := time b @ map Time rows,
       wdir_deg := wdir_deg b @ map WDIRDeg rows,
       wspd_ms := wspd_ms b @ map WSPDmS rows,
       gust_ms := gust_ms b @ map GUSTmS rows,
       pres_hpa := pres_hpa b @ map PREShPa rows,
       atmp_c := atmp_c b @ map ATMPC rows,
       wtmp_c := wtmp_c b @ map WTMPC rows,
       dewp_c := dewp_c b @ map DEWPC rows\<rparr>"
  by (induction rows arbitrary: b) (simp_all add: appendRow_def)

lemma rowsToRecord_columns:
  "rowsToRecord rows =
     \<lparr>station_id = map StationID rows, time = map Time rows, wdir_deg = map WDIRDeg rows,
      wspd_ms = map WSPDmS rows, gust_ms = map GUSTmS rows, pres_hpa = map PREShPa rows,
      atmp_c = map ATMPC rows, wtmp_c = map WTMPC rows, dewp_c = map DEWPC rows,
      numRows = length rows\<rparr>"
  by (simp add: rowsToRecord_def foldl_appendRow emptyBuilders_def)

lemma streamFiles_batches:
  "list_all (readsOK env) ps \<Longrightarrow>
     fst (streamFiles env ps) = False
     \<and> fst (snd (streamFiles env ps)) = map (batchOf env) (filter (emitted env) ps)"
  by (induction ps)
    (auto simp: readsOK_def rowsOf_def emitted_def batchOf_def split: outcome.splits prod.splits)

text \<open>
  C8 as amended. When the stream writer is set up and every discovered file is read
  without failure, the response has status 200 and its body is the schema, then one batch
  for every discovered file that holds at least one row and whose batch is written, in
  the order of discovery, then the end of the stream; with no discovered file it is the
  schema and the end of the stream.
\<close>

theorem C8_stream_batches:
  "\<not> newWriterFails env
   \<and> list_all (readsOK env) (sGlob env (sJoinPath env (sDataDir env) ''*_latest.parquet''))
   \<longrightarrow>
     respStatus (streamHandler env) = 200
     \<and> respBody (streamHandler env) =
         ArrowStream (SchemaMsg #
           map (batchOf env)
             (filter (emitted env) (sGlob env (sJoinPath env (sDataDir env) ''*_latest.parquet'')))
           @ [EndOfStream])
     \<and> (sGlob env (sJoinPath env (sDataDir env) ''*_latest.parquet'') = []
          \<longrightarrow> respBody (streamHandler env) = ArrowStream [SchemaMsg, EndOfStream])"
  using streamFiles_batches [of env "sGlob env (sJoinPath env (sDataDir env) ''*_latest.parquet'')"]
  by (auto simp: streamHandler_def Let_def split: prod.splits)

lemma fields_twoFiles:
  "newWriterFails twoFiles = False" "ipcWriteFails twoFiles p = False"
  "sGlob twoFiles pat = [''/data/LONF1_latest.parquet'', ''/data/SANF1_latest.parquet'']"
  by (simp_all add: twoFiles_def)

lemma read_twoFiles:
  "readFile twoFiles ''/data/LONF1_latest.parquet'' = Returns ([], None)"
  "readFile twoFiles ''/data/SANF1_latest.parquet'' = Returns ([sampleRow], None)"
proof -
  show "readFile twoFiles ''/data/LONF1_latest.parquet'' = Returns ([], None)"
    unfolding readFile_def
    by (rule readParquet_fresh [where c = "Rows [] False"]) (simp_all add: twoFiles_def)
  show "readFile twoFiles ''/data/SANF1_latest.parquet'' = Returns ([sampleRow], None)"
    unfolding readFile_def
    by (rule readParquet_fresh [where c = "Rows [sampleRow] False"]) (simp_all add: twoFiles_def)
qed

text \<open>
  C8 as stated fails: two files are discovered, the first holds no rows, and the stream
  holds one batch.
\<close>

theorem C8_two_files_one_batch:
  "length (sGlob twoFiles (sJoinPath twoFiles (sDataDir twoFiles) ''*_latest.parquet'')) = 2
   \<and> respBody (streamHandler twoFiles) =
       ArrowStream [SchemaMsg, BatchMsg (rowsToRecord [sampleRow]), EndOfStream]"
  by (simp add: streamHandler_def fields_twoFiles read_twoFiles)

theorem C8_stream_batches_witness:
  "respStatus (streamHandler twoFiles) = 200
   \<and> respBody (streamHandler twoFiles) =
       ArrowStream [SchemaMsg, batchOf twoFiles ''/data/SANF1_latest.parquet'', EndOfStream]
   \<and> respStatus (streamHandler noFiles) = 200
   \<and> respBody (streamHandler noFiles) = ArrowStream [SchemaMsg, EndOfStream]"
proof -
  have "\<not> emitted twoFiles ''/data/LONF1_latest.parquet''"
    "emitted twoFiles ''/data/SANF1_latest.parquet''"
    "readsOK twoFiles ''/data/LONF1_latest.parquet''"
    "readsOK twoFiles ''/data/SANF1_latest.parquet''"
    by (simp_all add: emitted_def rowsOf_def readsOK_def read_twoFiles fields_twoFiles)
  moreover have "\<not> newWriterFails noFiles" "sGlob noFiles pat = []" for pat
    by (simp_all add: noFiles_def fields_twoFiles)
  ultimately show ?thesis
    using C8_stream_batches [of twoFiles] C8_stream_batches [of noFiles]
    by (simp add: fields_twoFiles)
qed

text \<open>
  A discovered file that is no Parquet file: \<^verbatim>\<open>readParquet\<close> panics in the handler, which
  has written the batch of the file before it and reads no file after it.
\<close>

lemma fields_threeFiles:
  "newWriterFails threeFiles = False" "ipcWriteFails threeFiles p = False"
  "sGlob threeFiles pat = [''/data/AAAA1_latest.parquet'', ''/data/BBBB1_latest.parquet'',
      ''/data/CCCC1_latest.parquet'']"
  by (simp_all add: threeFiles_def twoFiles_def)

lemma read_threeFiles:
  "readFile threeFiles ''/data/AAAA1_latest.parquet'' = Returns ([sampleRow], None)"
  "readFile threeFiles ''/data/BBBB1_latest.parquet'' = Panics"
  "readFile threeFiles ''/data/CCCC1_latest.parquet'' = Returns ([laterRow], None)"
proof -
  show "readFile threeFiles ''/data/AAAA1_latest.parquet'' = Returns ([sampleRow], None)"
    unfolding readFile_def
    by (rule readParquet_fresh [where c = "Rows [sampleRow] False"])
      (simp_all add: threeFiles_def twoFiles_def)
  show "readFile threeFiles ''/data/BBBB1_latest.parquet'' = Panics"
    by (simp add: readFile_def readParquet_def threeFiles_def twoFiles_def)
  show "readFile threeFiles ''/data/CCCC1_latest.parquet'' = Returns ([laterRow], None)"
    unfolding readFile_def
    by (rule readParquet_fresh [where c = "Rows [laterRow] False"])
      (simp_all add: threeFiles_def twoFiles_def)
qed

lemma invalid_file_aborts_stream:
  "respBody (streamHandler threeFiles) = Aborted [BatchMsg (rowsToRecord [sampleRow])]
   \<and> respLog (streamHandler threeFiles) = [LogSent ''/data/AAAA1_latest.parquet'' 1]"
  by (simp add: streamHandler_def fields_threeFiles read_threeFiles)

end
